theory Spec2Isabelle
  imports Main "HOL-Library.Sublist"
begin

text \<open>
  A model of seed.go, the plugin that seeds Cloud Foundry from a manifest: the organizations,
  spaces, applications, services and service brokers of the manifest are created, or torn
  down, through the commands of the platform client. The model threads the trace of
  everything issued through the functions of seed.go; the platform's answers are a
  parameter.
\<close>

section \<open>The manifest model\<close>

text \<open>
  Modelled from the spec: the manifest types \<open>SeederManifest\<close>, \<open>Organization\<close>,
  \<open>Space\<close>, \<open>deployApp\<close>, \<open>Service\<close> and \<open>ServiceBroker\<close> are used by seed.go but declared
  elsewhere. Their fields are the ones seed.go reads, which are the ones section 3 of the
  specification lists; every scalar field is a string, so that the zero value of a struct
  has every field empty.
\<close>

record Service =
  svc_Name :: string
  svc_Service :: string
  svc_Plan :: string
  svc_Org :: string

record ServiceBroker =
  sb_Name :: string
  sb_Username :: string
  sb_Password :: string
  sb_Url :: string

record deployApp =
  app_Name :: string
  app_Repo :: string
  app_Path :: string
  app_Disk :: string
  app_Memory :: string
  app_Instances :: string
  app_Hostname :: string
  app_Domain :: string
  app_Buildpack :: string
  app_Manifest :: string
  app_ServiceBroker :: ServiceBroker
  app_ServiceAccess :: "Service list"

record Space =
  space_Name :: string
  space_Apps :: "deployApp list"
  space_Services :: "Service list"

record Organization =
  org_Name :: string
  org_Spaces :: "Space list"

record SeederManifest =
  Organizations :: "Organization list"

text \<open>\<open>ServiceBroker{}\<close>, the zero value a broker is compared with.\<close>

definition emptyServiceBroker :: ServiceBroker where
  "emptyServiceBroker = \<lparr>sb_Name = [], sb_Username = [], sb_Password = [], sb_Url = []\<rparr>"

section \<open>The platform's answers\<close>

text \<open>
  The response types come from the packages \<open>cftype\<close> and \<open>resources\<close>, outside this
  repository. Each record holds the fields seed.go reads from the decoded response:
  \<open>res.Resources[0].Resource.Metadata.Guid\<close>, \<open>app.Entity.Name\<close>,
  \<open>app.Entity.RoutesURL\<close>, \<open>routes.TotalResults\<close>, \<open>routes.Resources[0].Entity.Host\<close>,
  \<open>routes.Resources[0].Entity.DomainURL\<close> and \<open>domain.Entity.Name\<close>.
\<close>

record ApplicationResource =
  ar_Guid :: string

record PaginatedApplicationResources =
  par_Resources :: "ApplicationResource list"

record RetrieveAParticularApp =
  rapp_Name :: string
  rapp_RoutesURL :: string

record RouteResource =
  route_Host :: string
  route_DomainURL :: string

record ListAllRoutesForTheApp =
  TotalResults :: int
  routes_Resources :: "RouteResource list"

record RetrieveAParticularDomain =
  dom_Name :: string

section \<open>Effects\<close>

text \<open>
  Everything seed.go does to the outside is an event of the trace, in the order issued:
  a command of the platform client (\<open>conn.CliCommand\<close>), a read-only query
  (\<open>conn.CliCommandWithoutTerminalOutput\<close>), the creation of a directory, the run of an
  external program and a line printed on standard output.
\<close>

datatype event =
    CliCommandEv "string list"
  | QueryEv "string list"
  | MkdirAllEv string
  | ExecEv "string list"
  | PrintEv string

text \<open>
  The outside of the program: what each call answers, as a function of everything issued
  before it. An error value of Go is its message, \<open>None\<close> being \<open>nil\<close>. The four decoders
  stand for \<open>json.Unmarshal\<close> into a pointer to a fresh value of the response type; the
  result \<open>None\<close> is the \<open>nil\<close> pointer that the JSON literal \<open>null\<close> leaves behind.
  \<open>SpaceFields_Guid\<close> is the space GUID of the client's configuration file, or the error
  the configuration repository hands to its error handler, here \<open>fatalIf\<close>.
\<close>

record env =
  CliCommand_result :: "event list \<Rightarrow> string list \<Rightarrow> string list \<times> string option"
  Query_result :: "event list \<Rightarrow> string list \<Rightarrow> string list \<times> string option"
  Getwd_result :: "event list \<Rightarrow> string"
  ReadDir_result :: "event list \<Rightarrow> string \<Rightarrow> string list"
  LookPath_result :: "event list \<Rightarrow> string \<Rightarrow> string + string"
  Run_result :: "event list \<Rightarrow> string list \<Rightarrow> string option"
  SpaceFields_Guid :: "event list \<Rightarrow> string + string"
  Unmarshal_apps :: "string \<Rightarrow> PaginatedApplicationResources option"
  Unmarshal_app :: "string \<Rightarrow> RetrieveAParticularApp option"
  Unmarshal_routes :: "string \<Rightarrow> ListAllRoutesForTheApp option"
  Unmarshal_domain :: "string \<Rightarrow> RetrieveAParticularDomain option"

record SeedRepo =
  fileName :: string
  Manifest :: SeederManifest

record state =
  repo :: SeedRepo
  trace :: "event list"

text \<open>
  How a call ends when it does not return a value: an error returned to the caller, a
  run-time panic (an index out of range, a \<open>nil\<close> pointer dereferenced), or the process
  ended by \<open>os.Exit(1)\<close>.
\<close>

datatype failure = Returned string | IndexPanic | NilPanic | Exited

definition emit :: "event \<Rightarrow> state \<Rightarrow> state" where
  "emit e s = s\<lparr>trace := trace s @ [e]\<rparr>"

definition CliCommand :: "env \<Rightarrow> string list \<Rightarrow> state \<Rightarrow> (string list \<times> string option) \<times> state" where
  "CliCommand E args s = (CliCommand_result E (trace s) args, emit (CliCommandEv args) s)"

definition CliCommandWithoutTerminalOutput ::
  "env \<Rightarrow> string list \<Rightarrow> state \<Rightarrow> (string list \<times> string option) \<times> state" where
  "CliCommandWithoutTerminalOutput E args s = (Query_result E (trace s) args, emit (QueryEv args) s)"

definition MkdirAll :: "string \<Rightarrow> state \<Rightarrow> state" where
  "MkdirAll path s = emit (MkdirAllEv path) s"

definition Run_cmd :: "env \<Rightarrow> string list \<Rightarrow> state \<Rightarrow> string option \<times> state" where
  "Run_cmd E argv s = (Run_result E (trace s) argv, emit (ExecEv argv) s)"

definition Println :: "string \<Rightarrow> state \<Rightarrow> state" where
  "Println line s = emit (PrintEv line) s"

text \<open>\<open>fatalIf\<close>: a non-nil error is printed and ends the process.\<close>

definition fatalIf :: "string option \<Rightarrow> state \<Rightarrow> (failure + unit) \<times> state" where
  "fatalIf err s =
     (case err of
        None \<Rightarrow> (Inr (), s)
      | Some e \<Rightarrow> (Inl Exited, Println (''error: '' @ e) s))"

text \<open>
  A function of seed.go that returns \<open>error\<close> yields \<open>Inr ()\<close> for \<open>nil\<close> and
  \<open>Inl (Returned e)\<close> for the error \<open>e\<close>; \<open>errorOf\<close> turns the error value of a call into
  that result.
\<close>

definition errorOf :: "string option \<Rightarrow> failure + unit" where
  "errorOf err = (case err of None \<Rightarrow> Inr () | Some e \<Rightarrow> Inl (Returned e))"

text \<open>
  \<open>for _, x := range xs { body }\<close>, for the loops of seed.go: each leaves its function
  only by \<open>return err\<close> with a non-nil error, and is followed by \<open>return nil\<close> or by the
  next iteration of the enclosing loop.
\<close>

fun forEach ::
  "('a \<Rightarrow> state \<Rightarrow> (failure + unit) \<times> state) \<Rightarrow> 'a list \<Rightarrow> state \<Rightarrow> (failure + unit) \<times> state" where
  "forEach body [] s = (Inr (), s)"
| "forEach body (x # xs) s =
     (case body x s of
        (Inl f, s1) \<Rightarrow> (Inl f, s1)
      | (Inr _, s1) \<Rightarrow> forEach body xs s1)"

section \<open>Organizations, spaces and services\<close>

definition createOrganizations :: "env \<Rightarrow> state \<Rightarrow> (failure + unit) \<times> state" where
  "createOrganizations E s =
     forEach (\<lambda>org s.
        case CliCommand E [''create-org'', org_Name org] s of
          ((_, err), s1) \<Rightarrow> (errorOf err, s1))
       (Organizations (Manifest (repo s))) s"

definition deleteOrganizations :: "env \<Rightarrow> state \<Rightarrow> (failure + unit) \<times> state" where
  "deleteOrganizations E s =
     forEach (\<lambda>org s.
        case CliCommand E [''delete-org'', org_Name org, ''-f''] s of
          ((_, err), s1) \<Rightarrow> (errorOf err, s1))
       (Organizations (Manifest (repo s))) s"

definition createSpaces :: "env \<Rightarrow> state \<Rightarrow> (failure + unit) \<times> state" where
  "createSpaces E s =
     forEach (\<lambda>org s.
        case CliCommand E [''target'', ''-o'', org_Name org] s of
          (_, s1) \<Rightarrow>
            forEach (\<lambda>space s.
               case CliCommand E [''create-space'', space_Name space] s of
                 ((_, err), s2) \<Rightarrow> (errorOf err, s2))
              (org_Spaces org) s1)
       (Organizations (Manifest (repo s))) s"

definition deleteSpaces :: "env \<Rightarrow> state \<Rightarrow> (failure + unit) \<times> state" where
  "deleteSpaces E s =
     forEach (\<lambda>org s.
        case CliCommand E [''target'', ''-o'', org_Name org] s of
          (_, s1) \<Rightarrow>
            forEach (\<lambda>space s.
               case CliCommand E [''delete-space'', space_Name space, ''-f''] s of
                 ((_, err), s2) \<Rightarrow> (errorOf err, s2))
              (org_Spaces org) s1)
       (Organizations (Manifest (repo s))) s"

definition createServices :: "env \<Rightarrow> state \<Rightarrow> (failure + unit) \<times> state" where
  "createServices E s =
     forEach (\<lambda>org.
        forEach (\<lambda>space s.
           case CliCommand E [''target'', ''-o'', org_Name org, ''-s'', space_Name space] s of
             (_, s1) \<Rightarrow>
               forEach (\<lambda>service s.
                  case CliCommand E [''create-service'', svc_Service service, svc_Plan service,
                                     svc_Name service] s of
                    ((_, err), s2) \<Rightarrow> (errorOf err, s2))
                 (space_Services space) s1)
          (org_Spaces org))
       (Organizations (Manifest (repo s))) s"

definition deleteServices :: "env \<Rightarrow> state \<Rightarrow> (failure + unit) \<times> state" where
  "deleteServices E s =
     forEach (\<lambda>org.
        forEach (\<lambda>space s.
           case CliCommand E [''target'', ''-o'', org_Name org, ''-s'', space_Name space] s of
             (_, s1) \<Rightarrow>
               forEach (\<lambda>service s.
                  case CliCommand E [''delete-service'', svc_Name service, ''-f''] s of
                    ((_, err), s2) \<Rightarrow> (errorOf err, s2))
                 (space_Services space) s1)
          (org_Spaces org))
       (Organizations (Manifest (repo s))) s"

section \<open>Deploying and deleting one application\<close>

definition deleteApp :: "env \<Rightarrow> deployApp \<Rightarrow> state \<Rightarrow> (failure + unit) \<times> state" where
  "deleteApp E app s =
     (case CliCommand E [''delete'', app_Name app, ''-f'', ''-r''] s of
        ((_, err), s1) \<Rightarrow> (errorOf err, s1))"

text \<open>One optional flag of a command: appended when its value is not empty.\<close>

definition optFlag :: "string \<Rightarrow> string \<Rightarrow> string list" where
  "optFlag flag v = (if v \<noteq> [] then [flag, v] else [])"

text \<open>
  The second half of \<open>deployApp\<close>, from \<open>if app.Disk != ""\<close> on: the optional flags, the
  push, whose result is dropped, and \<open>return nil\<close>.
\<close>

definition deployApp_push :: "env \<Rightarrow> deployApp \<Rightarrow> string list \<Rightarrow> state \<Rightarrow> (failure + unit) \<times> state" where
  "deployApp_push E app args0 s =
     (let args = args0
            @ optFlag ''-k'' (app_Disk app)
            @ optFlag ''-m'' (app_Memory app)
            @ optFlag ''-i'' (app_Instances app)
            @ optFlag ''-n'' (app_Hostname app)
            @ optFlag ''-d'' (app_Domain app)
            @ optFlag ''-b'' (app_Buildpack app)
            @ optFlag ''-f'' (app_Manifest app)
      in case CliCommand E args s of (_, s1) \<Rightarrow> (Inr (), s1))"

definition deployApp :: "env \<Rightarrow> deployApp \<Rightarrow> state \<Rightarrow> (failure + unit) \<times> state" where
  "deployApp E app s =
     (let args = [''push'', app_Name app] in
      if app_Repo app \<noteq> [] then
        (let wd = Getwd_result E (trace s);
             appPath = wd @ ''/apps/'' @ app_Name app;
             s1 = MkdirAll appPath s;
             files = ReadDir_result E (trace s1) appPath
         in if length files = 0 then
              (case LookPath_result E (trace s1) ''git'' of
                 Inl err \<Rightarrow> (Inl (Returned err), s1)
               | Inr gitPath \<Rightarrow>
                   (case Run_cmd E [gitPath, ''clone'', app_Repo app, appPath] s1 of
                      (Some err, s2) \<Rightarrow> (Inr (), s2)
                    | (None, s2) \<Rightarrow> deployApp_push E app (args @ [''-p'', appPath]) s2))
            else deployApp_push E app (args @ [''-p'', appPath]) s1)
      else if app_Path app \<noteq> [] then deployApp_push E app (args @ [''-p'', app_Path app]) s
      else (Inl (Returned (''App need repo or path '' @ app_Name app)), s))"

section \<open>Route resolution\<close>

definition findAppGUID :: "env \<Rightarrow> string \<Rightarrow> string \<Rightarrow> state \<Rightarrow> (failure + string) \<times> state" where
  "findAppGUID E spaceGUID appName s =
     (let appQuery = ''/v2/spaces/'' @ spaceGUID @ ''/apps?q=name:'' @ appName
                       @ ''&inline-relations-depth=1'';
          cmd = [''curl'', appQuery]
      in case CliCommandWithoutTerminalOutput E cmd s of
           ((output, _), s1) \<Rightarrow>
             (case Unmarshal_apps E (concat output) of
                None \<Rightarrow> (Inl NilPanic, s1)
              | Some res \<Rightarrow>
                  (case par_Resources res of
                     [] \<Rightarrow> (Inl IndexPanic, s1)
                   | r # _ \<Rightarrow> (Inr (ar_Guid r), s1))))"

text \<open>\<open>findApp\<close> returns the pointer the decoder was given, \<open>None\<close> when it was set to \<open>nil\<close>.\<close>

definition findApp :: "env \<Rightarrow> string \<Rightarrow> state \<Rightarrow> RetrieveAParticularApp option \<times> state" where
  "findApp E appGUID s =
     (let cmd = [''curl'', ''/v2/apps/'' @ appGUID]
      in case CliCommandWithoutTerminalOutput E cmd s of
           ((output, _), s1) \<Rightarrow> (Unmarshal_app E (concat output), s1))"

definition getAppInfo ::
  "env \<Rightarrow> deployApp \<Rightarrow> state \<Rightarrow> (failure + RetrieveAParticularApp option) \<times> state" where
  "getAppInfo E app s =
     (case SpaceFields_Guid E (trace s) of
        Inl err \<Rightarrow> (Inl Exited, snd (fatalIf (Some err) s))
      | Inr spaceGUID \<Rightarrow>
          (case findAppGUID E spaceGUID (app_Name app) s of
             (Inl f, s1) \<Rightarrow> (Inl f, s1)
           | (Inr appGUID, s1) \<Rightarrow>
               (case findApp E appGUID s1 of (appInfo, s2) \<Rightarrow> (Inr appInfo, s2))))"

definition firstAppRoute ::
  "env \<Rightarrow> RetrieveAParticularApp option \<Rightarrow> state \<Rightarrow> (failure + string) \<times> state" where
  "firstAppRoute E appInfo s =
     (case appInfo of
        None \<Rightarrow> (Inl NilPanic, s)
      | Some app \<Rightarrow>
          (case CliCommandWithoutTerminalOutput E [''curl'', rapp_RoutesURL app] s of
             ((output, _), s1) \<Rightarrow>
               (case Unmarshal_routes E (concat output) of
                  None \<Rightarrow> (Inl NilPanic, s1)
                | Some routes \<Rightarrow>
                    if TotalResults routes = 0 then
                      (Inl (Returned (''App '' @ [CHR 0x27] @ rapp_Name app @ [CHR 0x27]
                                        @ '' has no routes'')), s1)
                    else
                      (case routes_Resources routes of
                         [] \<Rightarrow> (Inl IndexPanic, s1)
                       | route # _ \<Rightarrow>
                           (case CliCommandWithoutTerminalOutput E [''curl'', route_DomainURL route] s1 of
                              ((output2, _), s2) \<Rightarrow>
                                (case Unmarshal_domain E (concat output2) of
                                   None \<Rightarrow> (Inl NilPanic, s2)
                                 | Some domain \<Rightarrow>
                                     if route_Host route \<noteq> [] then
                                       (Inr (route_Host route @ ''.'' @ dom_Name domain), s2)
                                     else (Inr (dom_Name domain), s2)))))))"

section \<open>The service broker of an application\<close>

definition createServiceBroker :: "env \<Rightarrow> ServiceBroker \<Rightarrow> state \<Rightarrow> (failure + unit) \<times> state" where
  "createServiceBroker E broker s =
     (let args = [''create-service-broker'', sb_Name broker, sb_Username broker,
                  sb_Password broker, sb_Url broker]
      in case CliCommand E args s of ((_, err), s1) \<Rightarrow> (errorOf err, s1))"

definition deleteServiceBroker :: "env \<Rightarrow> ServiceBroker \<Rightarrow> state \<Rightarrow> (failure + unit) \<times> state" where
  "deleteServiceBroker E broker s =
     (let args = [''delete-service-broker'', sb_Name broker, ''-f'']
      in case CliCommand E args s of ((_, err), s1) \<Rightarrow> (errorOf err, s1))"

definition enableServiceAccess :: "env \<Rightarrow> Service \<Rightarrow> state \<Rightarrow> (failure + unit) \<times> state" where
  "enableServiceAccess E service s =
     (let args = [''enable-service-access'', svc_Service service]
            @ optFlag ''-p'' (svc_Plan service)
            @ optFlag ''-o'' (svc_Org service)
      in case CliCommand E args s of ((_, err), s1) \<Rightarrow> (errorOf err, s1))"

definition disableServiceAccess :: "env \<Rightarrow> Service \<Rightarrow> state \<Rightarrow> (failure + unit) \<times> state" where
  "disableServiceAccess E service s =
     (let args = [''disable-service-access'', svc_Service service]
            @ optFlag ''-p'' (svc_Plan service)
            @ optFlag ''-o'' (svc_Org service)
      in case CliCommand E args s of ((_, err), s1) \<Rightarrow> (errorOf err, s1))"

text \<open>
  \<open>app\<close> is a parameter passed by value: the assignment to \<open>app.ServiceBroker.Url\<close> changes
  the callee's copy, written \<open>app1\<close> here, and nothing of the repository.
\<close>

definition setAppAsService :: "env \<Rightarrow> deployApp \<Rightarrow> state \<Rightarrow> (failure + unit) \<times> state" where
  "setAppAsService E app s =
     (case getAppInfo E app s of
        (Inl f, s1) \<Rightarrow> (Inl f, s1)
      | (Inr appInfo, s1) \<Rightarrow>
          (case firstAppRoute E appInfo s1 of
             (Inl f, s2) \<Rightarrow> (Inl f, s2)
           | (Inr appRoute, s2) \<Rightarrow>
               (let app1 = app\<lparr>app_ServiceBroker :=
                              (app_ServiceBroker app)\<lparr>sb_Url := ''https://'' @ appRoute\<rparr>\<rparr>
                in case createServiceBroker E (app_ServiceBroker app1) s2 of
                     (Inl f, s3) \<Rightarrow> (Inl f, s3)
                   | (Inr _, s3) \<Rightarrow>
                       forEach (enableServiceAccess E) (app_ServiceAccess app1) s3)))"

definition deleteAppAsService :: "env \<Rightarrow> deployApp \<Rightarrow> state \<Rightarrow> (failure + unit) \<times> state" where
  "deleteAppAsService E app s =
     (case getAppInfo E app s of
        (Inl f, s1) \<Rightarrow> (Inl f, s1)
      | (Inr appInfo, s1) \<Rightarrow>
          (case firstAppRoute E appInfo s1 of
             (Inl f, s2) \<Rightarrow> (Inl f, s2)
           | (Inr appRoute, s2) \<Rightarrow>
               (let app1 = app\<lparr>app_ServiceBroker :=
                              (app_ServiceBroker app)\<lparr>sb_Url := ''https://'' @ appRoute\<rparr>\<rparr>
                in case forEach (disableServiceAccess E) (app_ServiceAccess app1) s2 of
                     (Inl f, s3) \<Rightarrow> (Inl f, s3)
                   | (Inr _, s3) \<Rightarrow> deleteServiceBroker E (app_ServiceBroker app1) s3)))"

section \<open>Applications of the manifest\<close>

definition createApps :: "env \<Rightarrow> state \<Rightarrow> (failure + unit) \<times> state" where
  "createApps E s =
     forEach (\<lambda>org.
        forEach (\<lambda>space s.
           case CliCommand E [''target'', ''-o'', org_Name org, ''-s'', space_Name space] s of
             (_, s1) \<Rightarrow>
               forEach (\<lambda>app s.
                  case deployApp E app s of
                    (Inl f, s2) \<Rightarrow> (Inl f, s2)
                  | (Inr _, s2) \<Rightarrow>
                      if app_ServiceBroker app \<noteq> emptyServiceBroker then
                        setAppAsService E app (Println ''setting app as service'' s2)
                      else (Inr (), s2))
                 (space_Apps space) s1)
          (org_Spaces org))
       (Organizations (Manifest (repo s))) s"

definition deleteApps :: "env \<Rightarrow> state \<Rightarrow> (failure + unit) \<times> state" where
  "deleteApps E s =
     forEach (\<lambda>org.
        forEach (\<lambda>space s.
           case CliCommand E [''target'', ''-o'', org_Name org, ''-s'', space_Name space] s of
             (_, s1) \<Rightarrow>
               forEach (\<lambda>app s.
                  case (if app_ServiceBroker app \<noteq> emptyServiceBroker
                        then deleteAppAsService E app s else (Inr (), s)) of
                    (Inl f, s2) \<Rightarrow> (Inl f, s2)
                  | (Inr _, s2) \<Rightarrow> deleteApp E app s2)
                 (space_Apps space) s1)
          (org_Spaces org))
       (Organizations (Manifest (repo s))) s"

section \<open>The run\<close>

text \<open>
  \<open>err = f(); fatalIf(err)\<close> followed by the rest \<open>k\<close> of the run. A panic or an exit
  inside \<open>f\<close> has ended the process before \<open>fatalIf\<close> is reached.
\<close>

definition phase ::
  "(state \<Rightarrow> (failure + unit) \<times> state) \<Rightarrow> (state \<Rightarrow> (failure + unit) \<times> state)
     \<Rightarrow> state \<Rightarrow> (failure + unit) \<times> state" where
  "phase f k s =
     (case f s of
        (Inl (Returned err), s1) \<Rightarrow> fatalIf (Some err) s1
      | (Inl x, s1) \<Rightarrow> (Inl x, s1)
      | (Inr _, s1) \<Rightarrow>
          (case fatalIf None s1 of
             (Inl x, s2) \<Rightarrow> (Inl x, s2)
           | (Inr _, s2) \<Rightarrow> k s2))"

text \<open>
  The action of \<open>Run\<close> once the manifest is read into the repository: the teardown when
  the flag \<open>c\<close> is set, the apply otherwise.
\<close>

definition Run_action :: "env \<Rightarrow> bool \<Rightarrow> state \<Rightarrow> (failure + unit) \<times> state" where
  "Run_action E c s =
     (if c then
        phase (deleteApps E)
          (phase (deleteServices E)
            (phase (deleteSpaces E)
              (phase (deleteOrganizations E) (\<lambda>s1. (Inr (), s1))))) s
      else
        phase (createOrganizations E)
          (phase (createSpaces E)
            (phase (createApps E)
              (phase (createServices E) (\<lambda>s1. (Inr (), s1))))) s)"

section \<open>What a run issued\<close>

text \<open>The events a call added to the trace, and the platform commands and queries among them.\<close>

definition issued :: "state \<Rightarrow> state \<Rightarrow> event list" where
  "issued s s1 = drop (length (trace s)) (trace s1)"

fun commands :: "event list \<Rightarrow> string list list" where
  "commands [] = []"
| "commands (CliCommandEv args # es) = args # commands es"
| "commands (e # es) = commands es"

fun queries :: "event list \<Rightarrow> string list list" where
  "queries [] = []"
| "queries (QueryEv args # es) = args # queries es"
| "queries (e # es) = queries es"

fun execs :: "event list \<Rightarrow> string list list" where
  "execs [] = []"
| "execs (ExecEv args # es) = args # execs es"
| "execs (e # es) = execs es"

definition named :: "string \<Rightarrow> string list list \<Rightarrow> string list list" where
  "named c cs = filter (\<lambda>args. take 1 args = [c]) cs"

text \<open>
  The deletion commands of every space, application and service of a manifest are among
  the events \<open>es\<close>.
\<close>

definition torn_down :: "SeederManifest \<Rightarrow> event list \<Rightarrow> bool" where
  "torn_down m es =
     (\<forall>org\<in>set (Organizations m). \<forall>space\<in>set (org_Spaces org).
        CliCommandEv [''delete-space'', space_Name space, ''-f''] \<in> set es
        \<and> (\<forall>app\<in>set (space_Apps space).
              CliCommandEv [''delete'', app_Name app, ''-f'', ''-r''] \<in> set es)
        \<and> (\<forall>service\<in>set (space_Services space).
              CliCommandEv [''delete-service'', svc_Name service, ''-f''] \<in> set es))"

text \<open>A state with more events, the commands on organizations, and a call that issues none.\<close>

definition ext :: "state \<Rightarrow> event list \<Rightarrow> state" where
  "ext s es = s\<lparr>trace := trace s @ es\<rparr>"

definition org_cmd :: "event \<Rightarrow> bool" where
  "org_cmd e = (case e of
      CliCommandEv args \<Rightarrow> take 1 args = [''create-org''] \<or> take 1 args = [''delete-org'']
    | _ \<Rightarrow> False)"

definition quiet :: "state \<Rightarrow> state \<Rightarrow> bool" where
  "quiet s s1 = (\<exists>es. s1 = ext s es \<and> (\<forall>e\<in>set es. \<not> org_cmd e))"

section \<open>An example platform and manifest\<close>

text \<open>
  A platform on which every command succeeds and every lookup resolves: the application
  \<open>api\<close> has the GUID \<open>g1\<close> and one route, host \<open>api\<close> on the domain \<open>example.com\<close>. The
  manifest is the one of the specification's end-to-end scenario: the organization
  \<open>acme\<close>, its space \<open>dev\<close>, and the application \<open>api\<close> with the broker \<open>b1\<close>.
\<close>

definition example_env :: env where
  "example_env =
     \<lparr>CliCommand_result = (\<lambda>t args. ([], None)),
      Query_result = (\<lambda>t args. (drop 1 args, None)),
      Getwd_result = (\<lambda>t. ''/work''),
      ReadDir_result = (\<lambda>t p. [''README'']),
      LookPath_result = (\<lambda>t p. Inr (''/usr/bin/'' @ p)),
      Run_result = (\<lambda>t argv. None),
      SpaceFields_Guid = (\<lambda>t. Inr ''sg''),
      Unmarshal_apps = (\<lambda>j. Some \<lparr>par_Resources = [\<lparr>ar_Guid = ''g1''\<rparr>]\<rparr>),
      Unmarshal_app = (\<lambda>j. Some \<lparr>rapp_Name = ''api'', rapp_RoutesURL = ''/v2/apps/g1/routes''\<rparr>),
      Unmarshal_routes = (\<lambda>j. Some \<lparr>TotalResults = 1,
         routes_Resources = [\<lparr>route_Host = ''api'', route_DomainURL = ''/v2/domains/d1''\<rparr>]\<rparr>),
      Unmarshal_domain = (\<lambda>j. Some \<lparr>dom_Name = ''example.com''\<rparr>)\<rparr>"

definition example_app :: deployApp where
  "example_app =
     \<lparr>app_Name = ''api'', app_Repo = [], app_Path = ''./api'', app_Disk = [], app_Memory = [],
      app_Instances = [], app_Hostname = [], app_Domain = [], app_Buildpack = [],
      app_Manifest = [],
      app_ServiceBroker = \<lparr>sb_Name = ''b1'', sb_Username = ''u'', sb_Password = ''p'', sb_Url = []\<rparr>,
      app_ServiceAccess = [\<lparr>svc_Name = [], svc_Service = ''s1'', svc_Plan = ''free'', svc_Org = []\<rparr>]\<rparr>"

definition example_manifest :: SeederManifest where
  "example_manifest =
     \<lparr>Organizations = [\<lparr>org_Name = ''acme'',
        org_Spaces = [\<lparr>space_Name = ''dev'', space_Apps = [example_app], space_Services = []\<rparr>]\<rparr>]\<rparr>"

definition example_state :: state where
  "example_state = \<lparr>repo = \<lparr>fileName = ''seed.yml'', Manifest = example_manifest\<rparr>, trace = []\<rparr>"

section \<open>Properties\<close>


subsection \<open>States with more events\<close>

lemma ext_Nil [simp]: "ext s [] = s" by (simp add: ext_def)
lemma ext_ext [simp]: "ext (ext s a) b = ext s (a @ b)" by (simp add: ext_def)
lemma trace_ext [simp]: "trace (ext s es) = trace s @ es" by (simp add: ext_def)
lemma repo_ext [simp]: "repo (ext s es) = repo s" by (simp add: ext_def)
lemma emit_ext: "emit e s = ext s [e]" by (simp add: ext_def emit_def)
lemma issued_ext [simp]: "issued s (ext s es) = es" by (simp add: issued_def)
lemma issued_same [simp]: "issued s s = []" by (simp add: issued_def)
lemma issued_ext_ext [simp]: "issued (ext s a) (ext s (a @ b)) = b" by (simp add: issued_def)
lemma ext_same_eq [simp]: "(ext s a = ext s b) = (a = b)"
  by (auto simp: ext_def dest: arg_cong [where f = trace])

lemma CliCommand_eq [simp]:
  "CliCommand E args s = (CliCommand_result E (trace s) args, ext s [CliCommandEv args])"
  by (simp add: CliCommand_def emit_ext)

lemma Query_eq [simp]:
  "CliCommandWithoutTerminalOutput E args s = (Query_result E (trace s) args, ext s [QueryEv args])"
  by (simp add: CliCommandWithoutTerminalOutput_def emit_ext)

lemma MkdirAll_eq [simp]: "MkdirAll p s = ext s [MkdirAllEv p]"
  by (simp add: MkdirAll_def emit_ext)

lemma Run_cmd_eq [simp]: "Run_cmd E argv s = (Run_result E (trace s) argv, ext s [ExecEv argv])"
  by (simp add: Run_cmd_def emit_ext)

lemma Println_eq [simp]: "Println l s = ext s [PrintEv l]"
  by (simp add: Println_def emit_ext)

lemma fatalIf_eq [simp]:
  "fatalIf None s = (Inr (), s)"
  "fatalIf (Some e) s = (Inl Exited, ext s [PrintEv (''error: '' @ e)])"
  by (simp_all add: fatalIf_def)

lemma errorOf_simps [simp]:
  "errorOf None = Inr ()" "errorOf (Some e) = Inl (Returned e)"
  "(errorOf err = Inr u) = (err = None)"
  by (simp_all add: errorOf_def split: option.splits)

subsection \<open>Calls that issue no organization command\<close>

lemma quiet_refl [simp]: "quiet s s"
  unfolding quiet_def by (rule exI [of _ "[]"]) simp

lemma quiet_trans: "quiet a b \<Longrightarrow> quiet b c \<Longrightarrow> quiet a c"
  unfolding quiet_def by (metis ext_ext UnE set_append)

lemma quiet_ext [simp]: "quiet s (ext s es) = (\<forall>e\<in>set es. \<not> org_cmd e)"
  unfolding quiet_def by auto

lemma quiet_step: "\<not> org_cmd e \<Longrightarrow> quiet (ext s [e]) s1 \<Longrightarrow> quiet s s1"
  by (rule quiet_trans [of s "ext s [e]"]) simp_all

lemma quiet_repo: "quiet s s1 \<Longrightarrow> repo s1 = repo s"
  unfolding quiet_def by auto

lemma quiet_issued: "quiet s s1 \<Longrightarrow> s1 = ext s (issued s s1)"
  unfolding quiet_def by auto

lemma quiet_issued_no_org: "quiet s s1 \<Longrightarrow> e \<in> set (issued s s1) \<Longrightarrow> \<not> org_cmd e"
  unfolding quiet_def by auto

lemma issued_trans: "quiet a b \<Longrightarrow> quiet b c \<Longrightarrow> issued a c = issued a b @ issued b c"
  unfolding quiet_def by auto

lemma forEach_quiet:
  "(\<And>x s. x \<in> set xs \<Longrightarrow> quiet s (snd (body x s))) \<Longrightarrow> quiet s (snd (forEach body xs s))"
proof (induction xs arbitrary: s)
  case Nil
  then show ?case by simp
next
  case (Cons x xs)
  have q1: "quiet s (snd (body x s))" using Cons.prems by simp
  show ?case
  proof (cases "body x s")
    case (Pair r s1)
    show ?thesis
    proof (cases r)
      case (Inl f)
      with Pair q1 show ?thesis by simp
    next
      case (Inr u)
      have "quiet s1 (snd (forEach body xs s1))"
        using Cons.IH Cons.prems by simp
      with Pair Inr q1 show ?thesis by (auto intro: quiet_trans)
    qed
  qed
qed

subsection \<open>What a completed loop has issued\<close>

lemma forEach_covers:
  assumes q: "\<And>x s. x \<in> set xs \<Longrightarrow> quiet s (snd (body x s))"
    and c: "\<And>x s. x \<in> set xs \<Longrightarrow> fst (body x s) = Inr () \<Longrightarrow> C x \<subseteq> set (issued s (snd (body x s)))"
    and ok: "fst (forEach body xs s) = Inr ()"
    and x: "x \<in> set xs"
  shows "C x \<subseteq> set (issued s (snd (forEach body xs s)))"
  using q c ok x
proof (induction xs arbitrary: s)
  case Nil
  then show ?case by simp
next
  case (Cons y ys)
  obtain r s1 where b: "body y s = (r, s1)" by (cases "body y s")
  have r: "r = Inr ()" using Cons.prems(3) b by (cases r) auto
  have q1: "quiet s s1" using Cons.prems(1) [of y s] b by simp
  have q2: "quiet s1 (snd (forEach body ys s1))"
    by (rule forEach_quiet) (simp add: Cons.prems(1))
  have fin: "forEach body (y # ys) s = forEach body ys s1" using b r by simp
  have iss: "issued s (snd (forEach body (y # ys) s)) = issued s s1 @ issued s1 (snd (forEach body ys s1))"
    unfolding fin by (rule issued_trans [OF q1 q2])
  show ?case
  proof (cases "x = y")
    case True
    have "C y \<subseteq> set (issued s s1)" using Cons.prems(2) [of y s] b r by simp
    with True iss show ?thesis by auto
  next
    case False
    then have xin: "x \<in> set ys" using Cons.prems(4) by simp
    have "C x \<subseteq> set (issued s1 (snd (forEach body ys s1)))"
    proof (rule Cons.IH)
      show "\<And>x s. x \<in> set ys \<Longrightarrow> quiet s (snd (body x s))" using Cons.prems(1) by simp
      show "\<And>x s. x \<in> set ys \<Longrightarrow> fst (body x s) = Inr () \<Longrightarrow> C x \<subseteq> set (issued s (snd (body x s)))"
        using Cons.prems(2) by simp
      show "fst (forEach body ys s1) = Inr ()" using Cons.prems(3) fin by simp
      show "x \<in> set ys" by (rule xin)
    qed
    with iss show ?thesis by auto
  qed
qed

subsection \<open>Loops of one command\<close>

lemma forEach_commands:
  assumes b: "\<And>x s. snd (body x s) = ext s [CliCommandEv (g x)]"
  shows "\<exists>k\<le>length xs. snd (forEach body xs s) = ext s (map (\<lambda>x. CliCommandEv (g x)) (take k xs))
           \<and> (fst (forEach body xs s) = Inr () \<longrightarrow> k = length xs)"
proof (induction xs arbitrary: s)
  case Nil
  then show ?case by simp
next
  case (Cons x xs)
  obtain r s1 where bx: "body x s = (r, s1)" by (cases "body x s")
  have s1: "s1 = ext s [CliCommandEv (g x)]" using b [of x s] bx by simp
  show ?case
  proof (cases r)
    case (Inl f)
    have "snd (forEach body (x # xs) s) = ext s (map (\<lambda>x. CliCommandEv (g x)) (take 1 (x # xs)))"
      using bx Inl s1 by simp
    moreover have "fst (forEach body (x # xs) s) \<noteq> Inr ()" using bx Inl by simp
    ultimately show ?thesis by (intro exI [of _ 1]) simp
  next
    case (Inr u)
    obtain k where k: "k \<le> length xs"
      "snd (forEach body xs s1) = ext s1 (map (\<lambda>x. CliCommandEv (g x)) (take k xs))"
      "fst (forEach body xs s1) = Inr () \<longrightarrow> k = length xs"
      using Cons.IH [of s1] by blast
    have fin: "forEach body (x # xs) s = forEach body xs s1" using bx Inr by simp
    show ?thesis
      using k unfolding fin s1 by (intro exI [of _ "Suc k"]) simp
  qed
qed


subsection \<open>No organization command outside the organization loops\<close>

lemma deployApp_quiet: "quiet s (snd (deployApp E app s))"
  by (simp add: deployApp_def deployApp_push_def Let_def org_cmd_def
      split: sum.splits option.splits)

lemma findAppGUID_quiet: "quiet s (snd (findAppGUID E g n s))"
  by (simp add: findAppGUID_def Let_def org_cmd_def split: prod.splits option.splits list.splits)

lemma getAppInfo_quiet: "quiet s (snd (getAppInfo E app s))"
proof (cases "SpaceFields_Guid E (trace s)")
  case (Inl err)
  then show ?thesis by (simp add: getAppInfo_def org_cmd_def)
next
  case (Inr g)
  obtain r s1 where f: "findAppGUID E g (app_Name app) s = (r, s1)"
    by (cases "findAppGUID E g (app_Name app) s")
  have q: "quiet s s1" using findAppGUID_quiet [of s E g "app_Name app"] f by simp
  show ?thesis
  proof (cases r)
    case (Inl x)
    with Inr f q show ?thesis by (simp add: getAppInfo_def)
  next
    case (Inr guid)
    have "quiet s1 (snd (findApp E guid s1))"
      by (simp add: findApp_def Let_def org_cmd_def split: prod.splits)
    with q have "quiet s (snd (findApp E guid s1))" by (rule quiet_trans)
    with \<open>SpaceFields_Guid E (trace s) = Inr g\<close> f Inr show ?thesis
      by (auto simp: getAppInfo_def split: prod.splits)
  qed
qed

lemma firstAppRoute_quiet: "quiet s (snd (firstAppRoute E info s))"
  by (simp add: firstAppRoute_def org_cmd_def split: prod.splits option.splits list.splits)

lemma enableServiceAccess_eq:
  "enableServiceAccess E v s =
     (errorOf (snd (CliCommand_result E (trace s)
        ([''enable-service-access'', svc_Service v] @ optFlag ''-p'' (svc_Plan v) @ optFlag ''-o'' (svc_Org v)))),
      ext s [CliCommandEv ([''enable-service-access'', svc_Service v]
               @ optFlag ''-p'' (svc_Plan v) @ optFlag ''-o'' (svc_Org v))])"
  by (simp add: enableServiceAccess_def Let_def split: prod.splits)

lemma disableServiceAccess_eq:
  "disableServiceAccess E v s =
     (errorOf (snd (CliCommand_result E (trace s)
        ([''disable-service-access'', svc_Service v] @ optFlag ''-p'' (svc_Plan v) @ optFlag ''-o'' (svc_Org v)))),
      ext s [CliCommandEv ([''disable-service-access'', svc_Service v]
               @ optFlag ''-p'' (svc_Plan v) @ optFlag ''-o'' (svc_Org v))])"
  by (simp add: disableServiceAccess_def Let_def split: prod.splits)

lemma createServiceBroker_eq:
  "createServiceBroker E b s =
     (errorOf (snd (CliCommand_result E (trace s)
        [''create-service-broker'', sb_Name b, sb_Username b, sb_Password b, sb_Url b])),
      ext s [CliCommandEv [''create-service-broker'', sb_Name b, sb_Username b, sb_Password b, sb_Url b]])"
  by (simp add: createServiceBroker_def Let_def split: prod.splits)

lemma deleteServiceBroker_eq:
  "deleteServiceBroker E b s =
     (errorOf (snd (CliCommand_result E (trace s) [''delete-service-broker'', sb_Name b, ''-f''])),
      ext s [CliCommandEv [''delete-service-broker'', sb_Name b, ''-f'']])"
  by (simp add: deleteServiceBroker_def Let_def split: prod.splits)

lemma deleteApp_eq:
  "deleteApp E app s =
     (errorOf (snd (CliCommand_result E (trace s) [''delete'', app_Name app, ''-f'', ''-r''])),
      ext s [CliCommandEv [''delete'', app_Name app, ''-f'', ''-r'']])"
  by (simp add: deleteApp_def split: prod.splits)

lemma enable_loop_quiet: "quiet s (snd (forEach (enableServiceAccess E) vs s))"
  by (rule forEach_quiet) (simp add: enableServiceAccess_eq org_cmd_def)

lemma disable_loop_quiet: "quiet s (snd (forEach (disableServiceAccess E) vs s))"
  by (rule forEach_quiet) (simp add: disableServiceAccess_eq org_cmd_def)

lemma setAppAsService_quiet: "quiet s (snd (setAppAsService E app s))"
proof -
  obtain r1 s1 where a: "getAppInfo E app s = (r1, s1)" by (cases "getAppInfo E app s")
  have q1: "quiet s s1" using getAppInfo_quiet [of s E app] a by simp
  show ?thesis
  proof (cases r1)
    case (Inl f)
    with a q1 show ?thesis by (simp add: setAppAsService_def)
  next
    case (Inr info)
    obtain r2 s2 where b: "firstAppRoute E info s1 = (r2, s2)" by (cases "firstAppRoute E info s1")
    have q2: "quiet s s2"
      using quiet_trans [OF q1 firstAppRoute_quiet [of s1 E info]] b by simp
    show ?thesis
    proof (cases r2)
      case (Inl f)
      with a b Inr q2 show ?thesis by (simp add: setAppAsService_def)
    next
      case (Inr route)
      have "quiet s2 (snd (setAppAsService E app s))"
        using a b Inr \<open>r1 = Inr info\<close>
        by (auto simp: setAppAsService_def Let_def createServiceBroker_eq org_cmd_def
            split: sum.splits intro!: quiet_step [OF _ enable_loop_quiet])
      with q2 show ?thesis by (rule quiet_trans)
    qed
  qed
qed

lemma deleteAppAsService_quiet: "quiet s (snd (deleteAppAsService E app s))"
proof -
  obtain r1 s1 where a: "getAppInfo E app s = (r1, s1)" by (cases "getAppInfo E app s")
  have q1: "quiet s s1" using getAppInfo_quiet [of s E app] a by simp
  show ?thesis
  proof (cases r1)
    case (Inl f)
    with a q1 show ?thesis by (simp add: deleteAppAsService_def)
  next
    case (Inr info)
    obtain r2 s2 where b: "firstAppRoute E info s1 = (r2, s2)" by (cases "firstAppRoute E info s1")
    have q2: "quiet s s2"
      using quiet_trans [OF q1 firstAppRoute_quiet [of s1 E info]] b by simp
    show ?thesis
    proof (cases r2)
      case (Inl f)
      with a b Inr q2 show ?thesis by (simp add: deleteAppAsService_def)
    next
      case (Inr route)
      obtain r3 s3 where c: "forEach (disableServiceAccess E) (app_ServiceAccess app) s2 = (r3, s3)"
        by (cases "forEach (disableServiceAccess E) (app_ServiceAccess app) s2")
      have q3: "quiet s2 s3" using disable_loop_quiet [of s2 E "app_ServiceAccess app"] c by simp
      have "quiet s3 (snd (deleteAppAsService E app s))"
        using a b c Inr \<open>r1 = Inr info\<close>
        by (cases r3) (simp_all add: deleteAppAsService_def Let_def deleteServiceBroker_eq org_cmd_def)
      with quiet_trans [OF q2 q3] show ?thesis by (rule quiet_trans)
    qed
  qed
qed


lemma issued_after: "quiet (ext s es) s1 \<Longrightarrow> issued s s1 = es @ issued (ext s es) s1"
  unfolding quiet_def by auto

lemma forEach_quiet_after:
  "\<not> org_cmd e \<Longrightarrow> (\<And>x s. x \<in> set xs \<Longrightarrow> quiet s (snd (body x s)))
     \<Longrightarrow> quiet s (snd (forEach body xs (ext s [e])))"
  by (rule quiet_step [OF _ forEach_quiet])

lemma forEach_mem:
  assumes q: "\<And>y s. y \<in> set xs \<Longrightarrow> quiet s (snd (body y s))"
    and c: "\<And>y s. y \<in> set xs \<Longrightarrow> P y \<Longrightarrow> fst (body y s) = Inr () \<Longrightarrow> ev \<in> set (issued s (snd (body y s)))"
    and ok: "fst (forEach body xs s) = Inr ()"
    and x: "x \<in> set xs" and px: "P x"
  shows "ev \<in> set (issued s (snd (forEach body xs s)))"
proof -
  have "(if P x then {ev} else {}) \<subseteq> set (issued s (snd (forEach body xs s)))"
    by (rule forEach_covers [where C = "\<lambda>y. if P y then {ev} else {}", OF q _ ok x])
       (use c in auto)
  with px show ?thesis by simp
qed

lemma forEach_mem_after:
  assumes "\<not> org_cmd e"
    and q: "\<And>y s. y \<in> set xs \<Longrightarrow> quiet s (snd (body y s))"
    and c: "\<And>y s. y \<in> set xs \<Longrightarrow> P y \<Longrightarrow> fst (body y s) = Inr () \<Longrightarrow> ev \<in> set (issued s (snd (body y s)))"
    and ok: "fst (forEach body xs (ext s [e])) = Inr ()"
    and x: "x \<in> set xs" and px: "P x"
  shows "ev \<in> set (issued s (snd (forEach body xs (ext s [e]))))"
proof -
  have "quiet (ext s [e]) (snd (forEach body xs (ext s [e])))"
    by (rule forEach_quiet) (rule q)
  then have "issued s (snd (forEach body xs (ext s [e])))
      = [e] @ issued (ext s [e]) (snd (forEach body xs (ext s [e])))"
    by (rule issued_after)
  moreover have "ev \<in> set (issued (ext s [e]) (snd (forEach body xs (ext s [e]))))"
    using q c ok x px by (rule forEach_mem)
  ultimately show ?thesis by auto
qed

subsection \<open>Spaces\<close>

lemma createSpaces_quiet: "quiet s (snd (createSpaces E s))"
  unfolding createSpaces_def
  by (auto simp: org_cmd_def split: prod.splits intro!: forEach_quiet forEach_quiet_after)

lemma deleteSpaces_quiet: "quiet s (snd (deleteSpaces E s))"
  unfolding deleteSpaces_def
  by (auto simp: org_cmd_def split: prod.splits intro!: forEach_quiet forEach_quiet_after)

lemma deleteSpaces_covers:
  assumes ok: "fst (deleteSpaces E s) = Inr ()"
    and org: "org \<in> set (Organizations (Manifest (repo s)))"
    and sp: "space \<in> set (org_Spaces org)"
  shows "CliCommandEv [''delete-space'', space_Name space, ''-f''] \<in> set (issued s (snd (deleteSpaces E s)))"
  unfolding deleteSpaces_def
  apply (rule forEach_mem [where x = org and P = "\<lambda>org. space \<in> set (org_Spaces org)"])
  subgoal by (auto simp: org_cmd_def split: prod.splits intro!: forEach_quiet_after)
  subgoal for y t
    apply (simp split: prod.splits)
    apply (rule forEach_mem_after [where x = space and P = "\<lambda>sp. sp = space"])
    by (auto simp: org_cmd_def split: prod.splits)
  subgoal using ok unfolding deleteSpaces_def .
  subgoal by (rule org)
  subgoal by (rule sp)
  done


subsection \<open>Services\<close>

lemma createServices_quiet: "quiet s (snd (createServices E s))"
  unfolding createServices_def
  by (auto simp: org_cmd_def split: prod.splits intro!: forEach_quiet forEach_quiet_after)

lemma deleteServices_quiet: "quiet s (snd (deleteServices E s))"
  unfolding deleteServices_def
  by (auto simp: org_cmd_def split: prod.splits intro!: forEach_quiet forEach_quiet_after)

lemma deleteServices_covers:
  assumes ok: "fst (deleteServices E s) = Inr ()"
    and org: "org \<in> set (Organizations (Manifest (repo s)))"
    and sp: "space \<in> set (org_Spaces org)"
    and sv: "service \<in> set (space_Services space)"
  shows "CliCommandEv [''delete-service'', svc_Name service, ''-f'']
           \<in> set (issued s (snd (deleteServices E s)))"
  unfolding deleteServices_def
  apply (rule forEach_mem [where x = org and P = "\<lambda>org. space \<in> set (org_Spaces org)"])
  subgoal by (auto simp: org_cmd_def split: prod.splits intro!: forEach_quiet forEach_quiet_after)
  subgoal for y t
    apply (rule forEach_mem [where x = space and P = "\<lambda>sp. sp = space"])
    subgoal by (auto simp: org_cmd_def split: prod.splits intro!: forEach_quiet_after)
    subgoal for z u
      apply (simp split: prod.splits)
      apply (rule forEach_mem_after [where x = service and P = "\<lambda>v. v = service"])
      using sv by (auto simp: org_cmd_def split: prod.splits)
    by auto
  subgoal using ok unfolding deleteServices_def .
  subgoal by (rule org)
  subgoal by (rule sp)
  done

subsection \<open>Applications\<close>

lemma createApps_body_quiet:
  "quiet s (snd (case deployApp E app s of
                    (Inl f, s2) \<Rightarrow> (Inl f, s2)
                  | (Inr _, s2) \<Rightarrow>
                      if app_ServiceBroker app \<noteq> emptyServiceBroker then
                        setAppAsService E app (Println ''setting app as service'' s2)
                      else (Inr (), s2)))"
proof -
  obtain r s2 where d: "deployApp E app s = (r, s2)" by (cases "deployApp E app s")
  have q: "quiet s s2" using deployApp_quiet [of s E app] d by simp
  have "quiet s2 (snd (setAppAsService E app (ext s2 [PrintEv ''setting app as service''])))"
    by (rule quiet_step [OF _ setAppAsService_quiet]) (simp add: org_cmd_def)
  with q have "quiet s (snd (setAppAsService E app (ext s2 [PrintEv ''setting app as service''])))"
    by (rule quiet_trans)
  with d q show ?thesis by (cases r) simp_all
qed

lemma createApps_quiet: "quiet s (snd (createApps E s))"
  unfolding createApps_def
  by (intro forEach_quiet) (simp add: org_cmd_def forEach_quiet_after createApps_body_quiet)

lemma deleteApps_body_quiet:
  "quiet s (snd (case (if app_ServiceBroker app \<noteq> emptyServiceBroker
                        then deleteAppAsService E app s else (Inr (), s)) of
                    (Inl f, s2) \<Rightarrow> (Inl f, s2)
                  | (Inr _, s2) \<Rightarrow> deleteApp E app s2))"
proof -
  obtain r s2 where d: "(if app_ServiceBroker app \<noteq> emptyServiceBroker
                        then deleteAppAsService E app s else (Inr (), s)) = (r, s2)"
    by (cases "(if app_ServiceBroker app \<noteq> emptyServiceBroker
                        then deleteAppAsService E app s else (Inr (), s))")
  have q: "quiet s s2" using deleteAppAsService_quiet [of s E app] d by (auto split: if_splits)
  have "quiet s2 (snd (deleteApp E app s2))" by (simp add: deleteApp_eq org_cmd_def)
  with q have "quiet s (snd (deleteApp E app s2))" by (rule quiet_trans)
  with q show ?thesis unfolding d by (cases r) simp_all
qed

lemma deleteApps_body_covers:
  assumes "fst (case (if app_ServiceBroker app \<noteq> emptyServiceBroker
                        then deleteAppAsService E app s else (Inr (), s)) of
                    (Inl f, s2) \<Rightarrow> (Inl f, s2)
                  | (Inr _, s2) \<Rightarrow> deleteApp E app s2) = Inr ()"
  shows "CliCommandEv [''delete'', app_Name app, ''-f'', ''-r'']
     \<in> set (issued s (snd (case (if app_ServiceBroker app \<noteq> emptyServiceBroker
                        then deleteAppAsService E app s else (Inr (), s)) of
                    (Inl f, s2) \<Rightarrow> (Inl f, s2)
                  | (Inr _, s2) \<Rightarrow> deleteApp E app s2)))"
proof -
  obtain r s2 where d: "(if app_ServiceBroker app \<noteq> emptyServiceBroker
                        then deleteAppAsService E app s else (Inr (), s)) = (r, s2)"
    by (cases "(if app_ServiceBroker app \<noteq> emptyServiceBroker
                        then deleteAppAsService E app s else (Inr (), s))")
  have q: "quiet s s2" using deleteAppAsService_quiet [of s E app] d by (auto split: if_splits)
  then obtain es where es: "s2 = ext s es" unfolding quiet_def by auto
  show ?thesis using assms unfolding d es by (cases r) (simp_all add: deleteApp_eq)
qed

lemma deleteApps_quiet: "quiet s (snd (deleteApps E s))"
  unfolding deleteApps_def
  by (intro forEach_quiet) (simp add: org_cmd_def forEach_quiet_after deleteApps_body_quiet)

lemma deleteApps_covers:
  assumes ok: "fst (deleteApps E s) = Inr ()"
    and org: "org \<in> set (Organizations (Manifest (repo s)))"
    and sp: "space \<in> set (org_Spaces org)"
    and ap: "app \<in> set (space_Apps space)"
  shows "CliCommandEv [''delete'', app_Name app, ''-f'', ''-r'']
           \<in> set (issued s (snd (deleteApps E s)))"
  unfolding deleteApps_def
  apply (rule forEach_mem [where x = org and P = "\<lambda>org. space \<in> set (org_Spaces org)"])
  subgoal by (intro forEach_quiet) (simp add: org_cmd_def forEach_quiet_after deleteApps_body_quiet)
  subgoal for y t
    apply (rule forEach_mem [where x = space and P = "\<lambda>sp. sp = space"])
    subgoal by (simp add: org_cmd_def forEach_quiet_after deleteApps_body_quiet)
    subgoal for z u
      apply (simp split: prod.splits)
      apply (rule forEach_mem_after [where x = app and P = "\<lambda>a. a = app"])
      subgoal by (simp add: org_cmd_def)
      subgoal by (rule deleteApps_body_quiet)
      subgoal for a w by hypsubst (erule deleteApps_body_covers)
      subgoal by simp
      subgoal by (rule ap)
      subgoal by simp
      done
    by auto
  subgoal using ok unfolding deleteApps_def .
  subgoal by (rule org)
  subgoal by (rule sp)
  done


subsection \<open>Phases of the run\<close>

lemma phase_ok: "f s = (Inr u, s1) \<Longrightarrow> phase f k s = k s1"
  by (simp add: phase_def)

lemma phase_stop:
  assumes "fst (f s) \<noteq> Inr ()"
  shows "fst (phase f k s) \<noteq> Inr () \<and> quiet (snd (f s)) (snd (phase f k s))"
proof (cases "f s")
  case (Pair r s1)
  with assms obtain x where r: "r = Inl x" by (cases r) auto
  show ?thesis using Pair r by (cases x) (simp_all add: phase_def org_cmd_def)
qed

lemma phase_quiet:
  assumes f: "\<And>s. quiet s (snd (f s))" and k: "\<And>s. quiet s (snd (k s))"
  shows "quiet s (snd (phase f k s))"
proof (cases "fst (f s) = Inr ()")
  case True
  then have "phase f k s = k (snd (f s))" by (cases "f s") (simp add: phase_def)
  then show ?thesis using quiet_trans [OF f k] by simp
next
  case False
  have "quiet (snd (f s)) (snd (phase f k s))"
    using phase_stop [where f = f and s = s and k = k] False by simp
  with f show ?thesis by (rule quiet_trans)
qed

subsection \<open>Organizations\<close>

lemma createOrganizations_shape:
  "\<exists>k\<le>length (Organizations (Manifest (repo s))).
     snd (createOrganizations E s)
       = ext s (map (\<lambda>org. CliCommandEv [''create-org'', org_Name org])
                  (take k (Organizations (Manifest (repo s)))))
     \<and> (fst (createOrganizations E s) = Inr () \<longrightarrow> k = length (Organizations (Manifest (repo s))))"
  unfolding createOrganizations_def
  by (rule forEach_commands) (simp split: prod.splits)

lemma deleteOrganizations_shape:
  "\<exists>k\<le>length (Organizations (Manifest (repo s))).
     snd (deleteOrganizations E s)
       = ext s (map (\<lambda>org. CliCommandEv [''delete-org'', org_Name org, ''-f''])
                  (take k (Organizations (Manifest (repo s)))))
     \<and> (fst (deleteOrganizations E s) = Inr () \<longrightarrow> k = length (Organizations (Manifest (repo s))))"
  unfolding deleteOrganizations_def
  by (rule forEach_commands) (simp split: prod.splits)

lemma commands_append [simp]: "commands (a @ b) = commands a @ commands b"
  by (induction a rule: commands.induct) simp_all

lemma commands_map [simp]: "commands (map (\<lambda>x. CliCommandEv (g x)) xs) = map g xs"
  by (induction xs) simp_all

lemma named_append [simp]: "named c (a @ b) = named c a @ named c b"
  by (simp add: named_def)

lemma named_quiet:
  "\<forall>e\<in>set es. \<not> org_cmd e \<Longrightarrow>
     named ''create-org'' (commands es) = [] \<and> named ''delete-org'' (commands es) = []"
  by (induction es rule: commands.induct) (simp_all add: named_def org_cmd_def)

lemma named_map: "(\<And>x. take 1 (g x) = [c]) \<Longrightarrow> named c (map g xs) = map g xs"
  by (simp add: named_def)

lemma apply_shape:
  "\<exists>k post. k \<le> length (Organizations (Manifest (repo s)))
     \<and> snd (Run_action E False s)
         = ext s (map (\<lambda>org. CliCommandEv [''create-org'', org_Name org])
                    (take k (Organizations (Manifest (repo s)))) @ post)
     \<and> (\<forall>e\<in>set post. \<not> org_cmd e)
     \<and> (fst (createOrganizations E s) = Inr () \<longrightarrow> k = length (Organizations (Manifest (repo s))))"
proof -
  let ?orgs = "Organizations (Manifest (repo s))"
  let ?K = "phase (createSpaces E) (phase (createApps E)
              (phase (createServices E) (\<lambda>s1. (Inr (), s1))))"
  obtain k where k: "k \<le> length ?orgs"
    "snd (createOrganizations E s)
       = ext s (map (\<lambda>org. CliCommandEv [''create-org'', org_Name org]) (take k ?orgs))"
    "fst (createOrganizations E s) = Inr () \<longrightarrow> k = length ?orgs"
    using createOrganizations_shape [of s E] by blast
  have run: "Run_action E False s = phase (createOrganizations E) ?K s"
    by (simp add: Run_action_def)
  have "quiet (snd (createOrganizations E s)) (snd (Run_action E False s))"
  proof (cases "fst (createOrganizations E s) = Inr ()")
    case True
    then have "Run_action E False s = ?K (snd (createOrganizations E s))"
      unfolding run by (cases "createOrganizations E s") (simp add: phase_def)
    moreover have "quiet t (snd (?K t))" for t
      by (intro phase_quiet createSpaces_quiet createApps_quiet createServices_quiet) simp
    ultimately show ?thesis by simp
  next
    case False
    show ?thesis
      unfolding run
      using phase_stop [where f = "createOrganizations E" and s = s and k = ?K] False by simp
  qed
  then obtain post where post: "snd (Run_action E False s) = ext (snd (createOrganizations E s)) post"
    "\<forall>e\<in>set post. \<not> org_cmd e"
    unfolding quiet_def by blast
  show ?thesis
    using k post by (intro exI [of _ k] exI [of _ post]) simp
qed


lemma teardown_shape:
  "\<exists>pre k post. k \<le> length (Organizations (Manifest (repo s)))
     \<and> snd (Run_action E True s)
         = ext s (pre @ map (\<lambda>org. CliCommandEv [''delete-org'', org_Name org, ''-f''])
                    (take k (Organizations (Manifest (repo s)))) @ post)
     \<and> (\<forall>e\<in>set pre. \<not> org_cmd e)
     \<and> (\<forall>e\<in>set post. \<not> org_cmd e)
     \<and> (0 < k \<longrightarrow> torn_down (Manifest (repo s)) pre)
     \<and> (fst (Run_action E True s) = Inr () \<longrightarrow> k = length (Organizations (Manifest (repo s))))"
  (is "\<exists>pre k post. ?shape pre k post")
proof -
  let ?orgs = "Organizations (Manifest (repo s))"
  let ?ev = "\<lambda>org. CliCommandEv [''delete-org'', org_Name org, ''-f'']"
  let ?K3 = "phase (deleteOrganizations E) (\<lambda>s1. (Inr (), s1))"
  let ?K2 = "phase (deleteSpaces E) ?K3"
  let ?K1 = "phase (deleteServices E) ?K2"
  have run: "Run_action E True s = phase (deleteApps E) ?K1 s"
    by (simp add: Run_action_def)
  have stopped: "\<exists>pre k post. ?shape pre k post"
    if q: "quiet s (snd (Run_action E True s))" and f: "fst (Run_action E True s) \<noteq> Inr ()"
  proof -
    from q obtain es where "snd (Run_action E True s) = ext s es" "\<forall>e\<in>set es. \<not> org_cmd e"
      unfolding quiet_def by blast
    with f show ?thesis by (intro exI [of _ es] exI [of _ 0] exI [of _ "[]"]) simp
  qed
  define sA where "sA = snd (deleteApps E s)"
  define sB where "sB = snd (deleteServices E sA)"
  define sC where "sC = snd (deleteSpaces E sB)"
  have qA: "quiet s sA" unfolding sA_def by (rule deleteApps_quiet)
  have qB: "quiet sA sB" unfolding sB_def by (rule deleteServices_quiet)
  have qC: "quiet sB sC" unfolding sC_def by (rule deleteSpaces_quiet)
  have rA: "repo sA = repo s" using qA by (rule quiet_repo)
  have rB: "repo sB = repo s" using qB rA by (simp add: quiet_repo)
  have rC: "repo sC = repo s" using qC rB by (simp add: quiet_repo)
  show ?thesis
  proof (cases "fst (deleteApps E s) = Inr ()")
    case False
    have "fst (Run_action E True s) \<noteq> Inr () \<and> quiet sA (snd (Run_action E True s))"
      unfolding run sA_def
      using phase_stop [where f = "deleteApps E" and s = s and k = ?K1] False by simp
    with qA show ?thesis by (intro stopped) (auto intro: quiet_trans)
  next
    case okA: True
    then have run1: "Run_action E True s = ?K1 sA"
      unfolding run sA_def by (cases "deleteApps E s") (simp add: phase_def)
    show ?thesis
    proof (cases "fst (deleteServices E sA) = Inr ()")
      case False
      have "fst (Run_action E True s) \<noteq> Inr () \<and> quiet sB (snd (Run_action E True s))"
        unfolding run1 sB_def
        using phase_stop [where f = "deleteServices E" and s = sA and k = ?K2] False by simp
      with qA qB show ?thesis by (intro stopped) (auto intro: quiet_trans)
    next
      case okB: True
      then have run2: "Run_action E True s = ?K2 sB"
        unfolding run1 sB_def by (cases "deleteServices E sA") (simp add: phase_def)
      show ?thesis
      proof (cases "fst (deleteSpaces E sB) = Inr ()")
        case False
        have "fst (Run_action E True s) \<noteq> Inr () \<and> quiet sC (snd (Run_action E True s))"
          unfolding run2 sC_def
          using phase_stop [where f = "deleteSpaces E" and s = sB and k = ?K3] False by simp
        with qA qB qC show ?thesis by (intro stopped) (auto intro: quiet_trans)
      next
        case okC: True
        then have run3: "Run_action E True s = ?K3 sC"
          unfolding run2 sC_def by (cases "deleteSpaces E sB") (simp add: phase_def)
        define pre where "pre = issued s sC"
        have qsC: "quiet s sC" using qA qB qC by (auto intro: quiet_trans)
        have sC: "sC = ext s pre" unfolding pre_def using qsC by (rule quiet_issued)
        have pre_quiet: "\<forall>e\<in>set pre. \<not> org_cmd e"
          unfolding pre_def using qsC by (auto dest: quiet_issued_no_org)
        have pre_eq: "pre = issued s sA @ issued sA sB @ issued sB sC"
          unfolding pre_def
          using issued_trans [OF qA quiet_trans [OF qB qC]] issued_trans [OF qB qC] by simp
        have cover: "torn_down (Manifest (repo s)) pre"
          unfolding torn_down_def
        proof (intro ballI conjI)
          fix org space
          assume o: "org \<in> set ?orgs" and sp: "space \<in> set (org_Spaces org)"
          have "CliCommandEv [''delete-space'', space_Name space, ''-f''] \<in> set (issued sB sC)"
            unfolding sC_def using okC o sp by (intro deleteSpaces_covers) (simp_all add: rB)
          then show "CliCommandEv [''delete-space'', space_Name space, ''-f''] \<in> set pre"
            unfolding pre_eq by simp
        next
          fix org space app
          assume o: "org \<in> set ?orgs" and sp: "space \<in> set (org_Spaces org)"
            and a: "app \<in> set (space_Apps space)"
          have "CliCommandEv [''delete'', app_Name app, ''-f'', ''-r''] \<in> set (issued s sA)"
            unfolding sA_def using okA o sp a by (intro deleteApps_covers)
          then show "CliCommandEv [''delete'', app_Name app, ''-f'', ''-r''] \<in> set pre"
            unfolding pre_eq by simp
        next
          fix org space service
          assume o: "org \<in> set ?orgs" and sp: "space \<in> set (org_Spaces org)"
            and v: "service \<in> set (space_Services space)"
          have "CliCommandEv [''delete-service'', svc_Name service, ''-f''] \<in> set (issued sA sB)"
            unfolding sB_def using okB o sp v by (intro deleteServices_covers) (simp_all add: rA)
          then show "CliCommandEv [''delete-service'', svc_Name service, ''-f''] \<in> set pre"
            unfolding pre_eq by simp
        qed
        obtain k where k: "k \<le> length ?orgs"
          "snd (deleteOrganizations E sC) = ext sC (map ?ev (take k ?orgs))"
          "fst (deleteOrganizations E sC) = Inr () \<longrightarrow> k = length ?orgs"
          using deleteOrganizations_shape [of sC E] unfolding rC by blast
        have "\<exists>post. snd (?K3 sC) = ext (snd (deleteOrganizations E sC)) post
                \<and> (\<forall>e\<in>set post. \<not> org_cmd e)
                \<and> (fst (?K3 sC) = Inr () \<longrightarrow> fst (deleteOrganizations E sC) = Inr ())"
        proof (cases "fst (deleteOrganizations E sC) = Inr ()")
          case True
          then have "?K3 sC = (Inr (), snd (deleteOrganizations E sC))"
            by (cases "deleteOrganizations E sC") (simp add: phase_def)
          with True show ?thesis by (intro exI [of _ "[]"]) simp
        next
          case False
          have "fst (?K3 sC) \<noteq> Inr () \<and> quiet (snd (deleteOrganizations E sC)) (snd (?K3 sC))"
            using phase_stop [where f = "deleteOrganizations E" and s = sC
                and k = "\<lambda>s1. (Inr (), s1)"] False by simp
          then show ?thesis unfolding quiet_def by blast
        qed
        then obtain post where post: "snd (?K3 sC) = ext (snd (deleteOrganizations E sC)) post"
          "\<forall>e\<in>set post. \<not> org_cmd e"
          "fst (?K3 sC) = Inr () \<longrightarrow> fst (deleteOrganizations E sC) = Inr ()"
          by blast
        have "?shape pre k post"
          using k post pre_quiet cover unfolding run3 sC by simp
        then show ?thesis by blast
      qed
    qed
  qed
qed


lemma split_at_marked:
  assumes eq: "pre @ mid @ post = before @ e # after"
    and pre: "\<forall>x\<in>set pre. \<not> Q x" and post: "\<forall>x\<in>set post. \<not> Q x" and e: "Q e"
  shows "mid \<noteq> [] \<and> set pre \<subseteq> set before"
proof -
  from eq obtain us where
    "(pre = before @ us \<and> us @ mid @ post = e # after)
     \<or> (pre @ us = before \<and> mid @ post = us @ e # after)"
    unfolding append_eq_append_conv2 by blast
  then show ?thesis
  proof
    assume a: "pre = before @ us \<and> us @ mid @ post = e # after"
    have "us = []"
    proof (cases us)
      case (Cons u us')
      with a have "e \<in> set pre" by auto
      with pre e show ?thesis by blast
    qed simp
    with a have "mid @ post = e # after" "pre = before" by simp_all
    moreover have "e \<notin> set post" using post e by blast
    ultimately show ?thesis by (cases mid) auto
  next
    assume b: "pre @ us = before \<and> mid @ post = us @ e # after"
    then have "e \<in> set (mid @ post)" by simp
    moreover have "e \<notin> set post" using post e by blast
    ultimately have "mid \<noteq> []" by auto
    with b show ?thesis by auto
  qed
qed

lemma torn_down_mono: "set a \<subseteq> set b \<Longrightarrow> torn_down m a \<Longrightarrow> torn_down m b"
  unfolding torn_down_def by blast

text \<open>
  Claim C1. The apply issues the \<open>create-org\<close> commands in the order of the manifest: the
  ones issued are a prefix of the manifest's list, and the whole list once
  \<open>createOrganizations\<close> has returned without an error. The teardown issues the
  \<open>delete-org\<close> commands in the same order, the whole list when it ends without a failure,
  and whatever precedes a \<open>delete-org\<close> command contains the deletion command of every
  space, application and service of the manifest, so of the descendants of that
  organization.
\<close>

theorem organizations_in_manifest_order:
  "prefix (named ''create-org'' (commands (issued s (snd (Run_action E False s)))))
          (map (\<lambda>org. [''create-org'', org_Name org]) (Organizations (Manifest (repo s))))
   \<and> (fst (createOrganizations E s) = Inr () \<longrightarrow>
        named ''create-org'' (commands (issued s (snd (Run_action E False s))))
          = map (\<lambda>org. [''create-org'', org_Name org]) (Organizations (Manifest (repo s))))
   \<and> prefix (named ''delete-org'' (commands (issued s (snd (Run_action E True s)))))
          (map (\<lambda>org. [''delete-org'', org_Name org, ''-f'']) (Organizations (Manifest (repo s))))
   \<and> (fst (Run_action E True s) = Inr () \<longrightarrow>
        named ''delete-org'' (commands (issued s (snd (Run_action E True s))))
          = map (\<lambda>org. [''delete-org'', org_Name org, ''-f'']) (Organizations (Manifest (repo s))))
   \<and> (\<forall>before args after.
        issued s (snd (Run_action E True s)) = before @ CliCommandEv (''delete-org'' # args) # after
          \<longrightarrow> torn_down (Manifest (repo s)) before)"
proof -
  let ?orgs = "Organizations (Manifest (repo s))"
  obtain k post where a: "k \<le> length ?orgs"
    "snd (Run_action E False s)
       = ext s (map (\<lambda>org. CliCommandEv [''create-org'', org_Name org]) (take k ?orgs) @ post)"
    "\<forall>e\<in>set post. \<not> org_cmd e"
    "fst (createOrganizations E s) = Inr () \<longrightarrow> k = length ?orgs"
    using apply_shape [of s E] by blast
  have created: "named ''create-org'' (commands (issued s (snd (Run_action E False s))))
      = map (\<lambda>org. [''create-org'', org_Name org]) (take k ?orgs)"
    unfolding a(2) using named_quiet [OF a(3)] by (simp add: named_map)
  obtain pre j post' where t: "j \<le> length ?orgs"
    "snd (Run_action E True s)
       = ext s (pre @ map (\<lambda>org. CliCommandEv [''delete-org'', org_Name org, ''-f'']) (take j ?orgs) @ post')"
    "\<forall>e\<in>set pre. \<not> org_cmd e" "\<forall>e\<in>set post'. \<not> org_cmd e"
    "0 < j \<longrightarrow> torn_down (Manifest (repo s)) pre"
    "fst (Run_action E True s) = Inr () \<longrightarrow> j = length ?orgs"
    using teardown_shape [of s E] by blast
  have deleted: "named ''delete-org'' (commands (issued s (snd (Run_action E True s))))
      = map (\<lambda>org. [''delete-org'', org_Name org, ''-f'']) (take j ?orgs)"
    unfolding t(2) using named_quiet [OF t(3)] named_quiet [OF t(4)] by (simp add: named_map)
  have after: "torn_down (Manifest (repo s)) before"
    if "issued s (snd (Run_action E True s)) = before @ CliCommandEv (''delete-org'' # args) # after"
    for before args after
  proof -
    have "pre @ map (\<lambda>org. CliCommandEv [''delete-org'', org_Name org, ''-f'']) (take j ?orgs) @ post'
        = before @ CliCommandEv (''delete-org'' # args) # after"
      using that unfolding t(2) by simp
    from split_at_marked [where Q = org_cmd, OF this t(3) t(4)]
    have "0 < j" and "set pre \<subseteq> set before" by (auto simp: org_cmd_def)
    with t(5) show ?thesis by (auto intro: torn_down_mono)
  qed
  have p1: "prefix (map (\<lambda>org. [''create-org'', org_Name org]) (take k ?orgs))
                   (map (\<lambda>org. [''create-org'', org_Name org]) ?orgs)"
    by (simp add: take_is_prefix map_mono_prefix)
  have p2: "prefix (map (\<lambda>org. [''delete-org'', org_Name org, ''-f'']) (take j ?orgs))
                   (map (\<lambda>org. [''delete-org'', org_Name org, ''-f'']) ?orgs)"
    by (simp add: take_is_prefix map_mono_prefix)
  show ?thesis
    unfolding created deleted using p1 p2 a(4) t(6) after by auto
qed


subsection \<open>The runs of the example\<close>

lemmas example_defs = example_env_def example_app_def example_manifest_def example_state_def
  emptyServiceBroker_def

lemmas run_defs = Run_action_def phase_def createOrganizations_def createSpaces_def
  createApps_def createServices_def deleteApps_def deleteServices_def deleteSpaces_def
  deleteOrganizations_def deployApp_def deployApp_push_def setAppAsService_def
  deleteAppAsService_def getAppInfo_def findAppGUID_def findApp_def firstAppRoute_def
  createServiceBroker_def deleteServiceBroker_def enableServiceAccess_def
  disableServiceAccess_def deleteApp_def optFlag_def Let_def ext_def issued_def

lemma example_apply:
  "Run_action example_env False example_state =
     (Inr (), example_state\<lparr>trace :=
       [CliCommandEv [''create-org'', ''acme''],
        CliCommandEv [''target'', ''-o'', ''acme''],
        CliCommandEv [''create-space'', ''dev''],
        CliCommandEv [''target'', ''-o'', ''acme'', ''-s'', ''dev''],
        CliCommandEv [''push'', ''api'', ''-p'', ''./api''],
        PrintEv ''setting app as service'',
        QueryEv [''curl'', ''/v2/spaces/sg/apps?q=name:api&inline-relations-depth=1''],
        QueryEv [''curl'', ''/v2/apps/g1''],
        QueryEv [''curl'', ''/v2/apps/g1/routes''],
        QueryEv [''curl'', ''/v2/domains/d1''],
        CliCommandEv [''create-service-broker'', ''b1'', ''u'', ''p'', ''https://api.example.com''],
        CliCommandEv [''enable-service-access'', ''s1'', ''-p'', ''free''],
        CliCommandEv [''target'', ''-o'', ''acme'', ''-s'', ''dev'']]\<rparr>)"
  by (simp add: example_defs run_defs)

lemma example_teardown:
  "Run_action example_env True example_state =
     (Inr (), example_state\<lparr>trace :=
       [CliCommandEv [''target'', ''-o'', ''acme'', ''-s'', ''dev''],
        QueryEv [''curl'', ''/v2/spaces/sg/apps?q=name:api&inline-relations-depth=1''],
        QueryEv [''curl'', ''/v2/apps/g1''],
        QueryEv [''curl'', ''/v2/apps/g1/routes''],
        QueryEv [''curl'', ''/v2/domains/d1''],
        CliCommandEv [''disable-service-access'', ''s1'', ''-p'', ''free''],
        CliCommandEv [''delete-service-broker'', ''b1'', ''-f''],
        CliCommandEv [''delete'', ''api'', ''-f'', ''-r''],
        CliCommandEv [''target'', ''-o'', ''acme'', ''-s'', ''dev''],
        CliCommandEv [''target'', ''-o'', ''acme''],
        CliCommandEv [''delete-space'', ''dev'', ''-f''],
        CliCommandEv [''delete-org'', ''acme'', ''-f'']]\<rparr>)"
  by (simp add: example_defs run_defs)


text \<open>The run on the example manifest, where both the apply and the teardown succeed.\<close>

theorem organizations_in_manifest_order_witness:
  "fst (createOrganizations example_env example_state) = Inr ()
   \<and> fst (Run_action example_env True example_state) = Inr ()
   \<and> named ''create-org'' (commands (trace (snd (Run_action example_env False example_state))))
        = [[''create-org'', ''acme'']]
   \<and> named ''delete-org'' (commands (trace (snd (Run_action example_env True example_state))))
        = [[''delete-org'', ''acme'', ''-f'']]
   \<and> torn_down example_manifest
        [CliCommandEv [''target'', ''-o'', ''acme'', ''-s'', ''dev''],
         QueryEv [''curl'', ''/v2/spaces/sg/apps?q=name:api&inline-relations-depth=1''],
         QueryEv [''curl'', ''/v2/apps/g1''],
         QueryEv [''curl'', ''/v2/apps/g1/routes''],
         QueryEv [''curl'', ''/v2/domains/d1''],
         CliCommandEv [''disable-service-access'', ''s1'', ''-p'', ''free''],
         CliCommandEv [''delete-service-broker'', ''b1'', ''-f''],
         CliCommandEv [''delete'', ''api'', ''-f'', ''-r''],
         CliCommandEv [''target'', ''-o'', ''acme'', ''-s'', ''dev''],
         CliCommandEv [''target'', ''-o'', ''acme''],
         CliCommandEv [''delete-space'', ''dev'', ''-f'']]"
proof -
  note T = organizations_in_manifest_order [of example_state example_env]
  have c: "fst (createOrganizations example_env example_state) = Inr ()"
    by (simp add: example_defs run_defs)
  have m: "Manifest (repo example_state) = example_manifest"
    by (simp add: example_state_def)
  have i: "issued example_state s1 = trace s1" for s1
    by (simp add: issued_def example_state_def)
  have split: "trace (snd (Run_action example_env True example_state)) =
        [CliCommandEv [''target'', ''-o'', ''acme'', ''-s'', ''dev''],
         QueryEv [''curl'', ''/v2/spaces/sg/apps?q=name:api&inline-relations-depth=1''],
         QueryEv [''curl'', ''/v2/apps/g1''],
         QueryEv [''curl'', ''/v2/apps/g1/routes''],
         QueryEv [''curl'', ''/v2/domains/d1''],
         CliCommandEv [''disable-service-access'', ''s1'', ''-p'', ''free''],
         CliCommandEv [''delete-service-broker'', ''b1'', ''-f''],
         CliCommandEv [''delete'', ''api'', ''-f'', ''-r''],
         CliCommandEv [''target'', ''-o'', ''acme'', ''-s'', ''dev''],
         CliCommandEv [''target'', ''-o'', ''acme''],
         CliCommandEv [''delete-space'', ''dev'', ''-f'']]
        @ CliCommandEv (''delete-org'' # [''acme'', ''-f'']) # []"
    by (simp add: example_teardown)
  have t: "fst (Run_action example_env True example_state) = Inr ()"
    by (simp add: example_teardown)
  from T c have "named ''create-org'' (commands (trace (snd (Run_action example_env False example_state))))
      = map (\<lambda>org. [''create-org'', org_Name org]) (Organizations example_manifest)"
    unfolding i m by blast
  moreover from T t have "named ''delete-org'' (commands (trace (snd (Run_action example_env True example_state))))
      = map (\<lambda>org. [''delete-org'', org_Name org, ''-f'']) (Organizations example_manifest)"
    unfolding i m by blast
  moreover from T split have "torn_down example_manifest
        [CliCommandEv [''target'', ''-o'', ''acme'', ''-s'', ''dev''],
         QueryEv [''curl'', ''/v2/spaces/sg/apps?q=name:api&inline-relations-depth=1''],
         QueryEv [''curl'', ''/v2/apps/g1''],
         QueryEv [''curl'', ''/v2/apps/g1/routes''],
         QueryEv [''curl'', ''/v2/domains/d1''],
         CliCommandEv [''disable-service-access'', ''s1'', ''-p'', ''free''],
         CliCommandEv [''delete-service-broker'', ''b1'', ''-f''],
         CliCommandEv [''delete'', ''api'', ''-f'', ''-r''],
         CliCommandEv [''target'', ''-o'', ''acme'', ''-s'', ''dev''],
         CliCommandEv [''target'', ''-o'', ''acme''],
         CliCommandEv [''delete-space'', ''dev'', ''-f'']]"
    unfolding i m by blast
  ultimately show ?thesis using c t by (simp add: example_manifest_def)
qed


subsection \<open>Deploying one application\<close>

lemma deployApp_push_eq:
  "deployApp_push E app args0 s =
     (Inr (), ext s [CliCommandEv (args0
            @ optFlag ''-k'' (app_Disk app)
            @ optFlag ''-m'' (app_Memory app)
            @ optFlag ''-i'' (app_Instances app)
            @ optFlag ''-n'' (app_Hostname app)
            @ optFlag ''-d'' (app_Domain app)
            @ optFlag ''-b'' (app_Buildpack app)
            @ optFlag ''-f'' (app_Manifest app))])"
  by (simp add: deployApp_push_def Let_def split: prod.splits)

text \<open>
  Claim C6. An application with neither a repository nor a path makes \<open>deployApp\<close> return
  the error \<open>App need repo or path\<close> followed by the application's name, in the state it
  was called in: nothing is issued, to the platform client or otherwise.
\<close>

theorem deployApp_needs_source:
  assumes "app_Repo app = []" and "app_Path app = []"
  shows "deployApp E app s = (Inl (Returned (''App need repo or path '' @ app_Name app)), s)
         \<and> issued s (snd (deployApp E app s)) = []"
  using assms by (simp add: deployApp_def)

theorem deployApp_needs_source_witness:
  "deployApp example_env (example_app\<lparr>app_Path := []\<rparr>) example_state
     = (Inl (Returned ''App need repo or path api''), example_state)"
  using deployApp_needs_source [of "example_app\<lparr>app_Path := []\<rparr>" example_env example_state]
  by (simp add: example_app_def)

text \<open>
  Claim C7. An application with a repository whose directory \<open>apps/<name>\<close> under the
  working directory lists at least one file is deployed without running any external
  program, so without \<open>git clone\<close>: after the directory is made sure of, the one thing
  issued is the push, with \<open>-p\<close> and that directory before the optional flags.
\<close>

theorem deployApp_reuses_directory:
  assumes "app_Repo app \<noteq> []"
    and "appPath = Getwd_result E (trace s) @ ''/apps/'' @ app_Name app"
    and "ReadDir_result E (trace s @ [MkdirAllEv appPath]) appPath \<noteq> []"
  shows "fst (deployApp E app s) = Inr ()
         \<and> execs (issued s (snd (deployApp E app s))) = []
         \<and> issued s (snd (deployApp E app s)) =
             [MkdirAllEv appPath,
              CliCommandEv ([''push'', app_Name app, ''-p'', appPath]
                @ optFlag ''-k'' (app_Disk app)
                @ optFlag ''-m'' (app_Memory app)
                @ optFlag ''-i'' (app_Instances app)
                @ optFlag ''-n'' (app_Hostname app)
                @ optFlag ''-d'' (app_Domain app)
                @ optFlag ''-b'' (app_Buildpack app)
                @ optFlag ''-f'' (app_Manifest app))]"
  using assms by (simp add: deployApp_def deployApp_push_eq Let_def)

theorem deployApp_reuses_directory_witness:
  "app_Repo (example_app\<lparr>app_Repo := ''https://git.example.com/api''\<rparr>) \<noteq> []
   \<and> ReadDir_result example_env (trace example_state @ [MkdirAllEv ''/work/apps/api''])
        ''/work/apps/api'' \<noteq> []
   \<and> issued example_state
        (snd (deployApp example_env (example_app\<lparr>app_Repo := ''https://git.example.com/api''\<rparr>)
           example_state))
      = [MkdirAllEv ''/work/apps/api'', CliCommandEv [''push'', ''api'', ''-p'', ''/work/apps/api'']]"
  using deployApp_reuses_directory [of "example_app\<lparr>app_Repo := ''https://git.example.com/api''\<rparr>"
      "''/work/apps/api''" example_env example_state]
  by (simp add: example_app_def example_env_def example_state_def optFlag_def)

text \<open>
  Claim C8, which the code does not meet. The result of the push is dropped and
  \<open>deployApp\<close> ends with \<open>return nil\<close>: on a platform whose push fails, the application
  of the example, which has a path, is pushed and \<open>deployApp\<close> returns no error.
\<close>

theorem deployApp_drops_push_failure:
  "snd (CliCommand_result
          (example_env\<lparr>CliCommand_result := \<lambda>t args. ([], Some ''push failed'')\<rparr>)
          (trace example_state) [''push'', ''api'', ''-p'', ''./api'']) = Some ''push failed''
   \<and> deployApp (example_env\<lparr>CliCommand_result := \<lambda>t args. ([], Some ''push failed'')\<rparr>)
        example_app example_state
      = (Inr (), example_state\<lparr>trace := [CliCommandEv [''push'', ''api'', ''-p'', ''./api'']]\<rparr>)"
  by (simp add: example_defs run_defs)

subsection \<open>Route resolution\<close>

text \<open>
  Claim C2, as the code has it. The guard of \<open>firstAppRoute\<close> is on the count
  \<open>total_results\<close> of the routes document, not on its list of routes. When the count is
  not zero and the list has a first route, the result is that route's host, a dot and
  the name of the domain, or the name of the domain alone when the host is empty; this
  for every application record and every domain record.
\<close>

theorem firstAppRoute_composes:
  assumes "Unmarshal_routes E (concat (fst (Query_result E (trace s) [''curl'', rapp_RoutesURL app])))
             = Some routes"
    and "TotalResults routes \<noteq> 0"
    and "routes_Resources routes = route # rest"
    and "Unmarshal_domain E (concat (fst (Query_result E
             (trace s @ [QueryEv [''curl'', rapp_RoutesURL app]])
             [''curl'', route_DomainURL route]))) = Some domain"
  shows "fst (firstAppRoute E (Some app) s)
           = Inr (if route_Host route \<noteq> [] then route_Host route @ ''.'' @ dom_Name domain
                  else dom_Name domain)"
  using assms by (simp add: firstAppRoute_def case_prod_beta)

theorem firstAppRoute_composes_witness:
  "fst (firstAppRoute example_env
          (Some \<lparr>rapp_Name = ''api'', rapp_RoutesURL = ''/v2/apps/g1/routes''\<rparr>) example_state)
     = Inr ''api.example.com''"
  using firstAppRoute_composes [of example_env example_state
      "\<lparr>rapp_Name = ''api'', rapp_RoutesURL = ''/v2/apps/g1/routes''\<rparr>"
      "\<lparr>TotalResults = 1,
         routes_Resources = [\<lparr>route_Host = ''api'', route_DomainURL = ''/v2/domains/d1''\<rparr>]\<rparr>"
      "\<lparr>route_Host = ''api'', route_DomainURL = ''/v2/domains/d1''\<rparr>" "[]"
      "\<lparr>dom_Name = ''example.com''\<rparr>"]
  by (simp add: example_env_def)

text \<open>
  A routes document with one route and the count zero: the claim as stated promises
  \<open>api.example.com\<close>, the code returns the error.
\<close>

theorem firstAppRoute_uncounted_route:
  "Unmarshal_routes
      (example_env\<lparr>Unmarshal_routes := \<lambda>j. Some \<lparr>TotalResults = 0,
          routes_Resources = [\<lparr>route_Host = ''api'', route_DomainURL = ''/v2/domains/d1''\<rparr>]\<rparr>\<rparr>)
      ''/v2/apps/g1/routes''
     = Some \<lparr>TotalResults = 0,
          routes_Resources = [\<lparr>route_Host = ''api'', route_DomainURL = ''/v2/domains/d1''\<rparr>]\<rparr>
   \<and> fst (firstAppRoute
        (example_env\<lparr>Unmarshal_routes := \<lambda>j. Some \<lparr>TotalResults = 0,
          routes_Resources = [\<lparr>route_Host = ''api'', route_DomainURL = ''/v2/domains/d1''\<rparr>]\<rparr>\<rparr>)
        (Some \<lparr>rapp_Name = ''api'', rapp_RoutesURL = ''/v2/apps/g1/routes''\<rparr>) example_state)
     = Inl (Returned (''App '' @ [CHR 0x27] @ ''api'' @ [CHR 0x27] @ '' has no routes''))
   \<and> fst (firstAppRoute
        (example_env\<lparr>Unmarshal_routes := \<lambda>j. Some \<lparr>TotalResults = 0,
          routes_Resources = [\<lparr>route_Host = ''api'', route_DomainURL = ''/v2/domains/d1''\<rparr>]\<rparr>\<rparr>)
        (Some \<lparr>rapp_Name = ''api'', rapp_RoutesURL = ''/v2/apps/g1/routes''\<rparr>) example_state)
     \<noteq> Inr ''api.example.com''"
  by (simp add: example_defs run_defs)

text \<open>
  Claim C3, as the code has it. When the routes document has the count \<open>total_results\<close>
  zero, whatever its list of routes, \<open>firstAppRoute\<close> returns the error
  \<open>App '<name>' has no routes\<close> with the name of the application record, for every
  application record; the routes query is the one thing issued, so no domain is looked
  up and no host name is produced.
\<close>

theorem firstAppRoute_no_routes:
  assumes "Unmarshal_routes E (concat (fst (Query_result E (trace s) [''curl'', rapp_RoutesURL app])))
             = Some routes"
    and "TotalResults routes = 0"
  shows "fst (firstAppRoute E (Some app) s)
           = Inl (Returned (''App '' @ [CHR 0x27] @ rapp_Name app @ [CHR 0x27] @ '' has no routes''))
         \<and> issued s (snd (firstAppRoute E (Some app) s)) = [QueryEv [''curl'', rapp_RoutesURL app]]"
  using assms by (simp add: firstAppRoute_def case_prod_beta)

theorem firstAppRoute_no_routes_witness:
  "fst (firstAppRoute
          (example_env\<lparr>Unmarshal_routes := \<lambda>j. Some \<lparr>TotalResults = 0, routes_Resources = []\<rparr>\<rparr>)
          (Some \<lparr>rapp_Name = ''api'', rapp_RoutesURL = ''/v2/apps/g1/routes''\<rparr>) example_state)
     = Inl (Returned (''App '' @ [CHR 0x27] @ ''api'' @ [CHR 0x27] @ '' has no routes''))"
  using firstAppRoute_no_routes
    [of "example_env\<lparr>Unmarshal_routes := \<lambda>j. Some \<lparr>TotalResults = 0, routes_Resources = []\<rparr>\<rparr>"
      example_state "\<lparr>rapp_Name = ''api'', rapp_RoutesURL = ''/v2/apps/g1/routes''\<rparr>"
      "\<lparr>TotalResults = 0, routes_Resources = []\<rparr>"]
  by (simp add: example_env_def)

text \<open>
  A routes document with no route and the count one: the claim as stated promises the
  error, the code indexes the empty list and panics.
\<close>

theorem firstAppRoute_miscounted_routes:
  "Unmarshal_routes
      (example_env\<lparr>Unmarshal_routes := \<lambda>j. Some \<lparr>TotalResults = 1, routes_Resources = []\<rparr>\<rparr>)
      ''/v2/apps/g1/routes''
     = Some \<lparr>TotalResults = 1, routes_Resources = []\<rparr>
   \<and> fst (firstAppRoute
        (example_env\<lparr>Unmarshal_routes := \<lambda>j. Some \<lparr>TotalResults = 1, routes_Resources = []\<rparr>\<rparr>)
        (Some \<lparr>rapp_Name = ''api'', rapp_RoutesURL = ''/v2/apps/g1/routes''\<rparr>) example_state)
     = Inl IndexPanic"
  by (simp add: example_defs run_defs)

text \<open>
  Claim C10. When the application search decodes to an empty list of resources,
  \<open>findAppGUID\<close> indexes its first element and panics: no error is returned, and the
  registration and the deregistration of the broker end in the same panic.
\<close>

theorem findAppGUID_no_match_panics:
  assumes "SpaceFields_Guid E (trace s) = Inr g"
    and "Unmarshal_apps E (concat (fst (Query_result E (trace s)
            [''curl'', ''/v2/spaces/'' @ g @ ''/apps?q=name:'' @ app_Name app
                         @ ''&inline-relations-depth=1''])))
           = Some res"
    and "par_Resources res = []"
  shows "fst (findAppGUID E g (app_Name app) s) = Inl IndexPanic
         \<and> fst (getAppInfo E app s) = Inl IndexPanic
         \<and> fst (setAppAsService E app s) = Inl IndexPanic
         \<and> fst (deleteAppAsService E app s) = Inl IndexPanic"
  using assms
  by (simp add: findAppGUID_def getAppInfo_def setAppAsService_def deleteAppAsService_def Let_def
      case_prod_beta)

theorem findAppGUID_no_match_panics_witness:
  "fst (setAppAsService (example_env\<lparr>Unmarshal_apps := \<lambda>j. Some \<lparr>par_Resources = []\<rparr>\<rparr>)
          example_app example_state) = Inl IndexPanic
   \<and> fst (Run_action (example_env\<lparr>Unmarshal_apps := \<lambda>j. Some \<lparr>par_Resources = []\<rparr>\<rparr>)
          False example_state) = Inl IndexPanic"
  using findAppGUID_no_match_panics
    [of "example_env\<lparr>Unmarshal_apps := \<lambda>j. Some \<lparr>par_Resources = []\<rparr>\<rparr>" example_state
      "''sg''" example_app "\<lparr>par_Resources = []\<rparr>"]
  by (simp add: example_defs run_defs)

subsection \<open>Deregistering a broker\<close>

lemma ext_self_eq [simp]: "(s = ext s es) = (es = [])"
proof
  assume "s = ext s es"
  then have "trace s = trace (ext s es)" by simp
  then show "es = []" by simp
qed simp

lemma getAppInfo_no_commands: "\<exists>es. snd (getAppInfo E app s) = ext s es \<and> commands es = []"
  by (simp add: getAppInfo_def findAppGUID_def findApp_def Let_def case_prod_beta
      split: sum.splits option.splits list.splits)

lemma firstAppRoute_no_commands: "\<exists>es. snd (firstAppRoute E info s) = ext s es \<and> commands es = []"
  by (simp add: firstAppRoute_def case_prod_beta split: option.splits list.splits)

lemma deleteAppAsService_shape:
  "\<exists>k\<le>length (app_ServiceAccess app).
     (fst (deleteAppAsService E app s) \<noteq> Inr ()
        \<and> commands (issued s (snd (deleteAppAsService E app s)))
            = map (\<lambda>service. [''disable-service-access'', svc_Service service]
                     @ optFlag ''-p'' (svc_Plan service) @ optFlag ''-o'' (svc_Org service))
                (take k (app_ServiceAccess app)))
     \<or> commands (issued s (snd (deleteAppAsService E app s)))
            = map (\<lambda>service. [''disable-service-access'', svc_Service service]
                     @ optFlag ''-p'' (svc_Plan service) @ optFlag ''-o'' (svc_Org service))
                (app_ServiceAccess app)
              @ [[''delete-service-broker'', sb_Name (app_ServiceBroker app), ''-f'']]"
  (is "\<exists>k\<le>_. ?stopped k \<or> ?done")
proof -
  let ?d = "\<lambda>service. [''disable-service-access'', svc_Service service]
                     @ optFlag ''-p'' (svc_Plan service) @ optFlag ''-o'' (svc_Org service)"
  obtain r1 s1 where a: "getAppInfo E app s = (r1, s1)" by (cases "getAppInfo E app s")
  obtain es1 where s1: "s1 = ext s es1" "commands es1 = []"
    using getAppInfo_no_commands [of E app s] a by auto
  show ?thesis
  proof (cases r1)
    case (Inl f)
    with a s1 have "?stopped 0" by (simp add: deleteAppAsService_def)
    then show ?thesis by blast
  next
    case (Inr info)
    obtain r2 s2 where b: "firstAppRoute E info s1 = (r2, s2)" by (cases "firstAppRoute E info s1")
    obtain es2 where s2: "s2 = ext s1 es2" "commands es2 = []"
      using firstAppRoute_no_commands [of E info s1] b by auto
    show ?thesis
    proof (cases r2)
      case (Inl f)
      with a b s1 s2 \<open>r1 = Inr info\<close> have "?stopped 0" by (simp add: deleteAppAsService_def)
      then show ?thesis by blast
    next
      case (Inr route)
      obtain k where k: "k \<le> length (app_ServiceAccess app)"
        "snd (forEach (disableServiceAccess E) (app_ServiceAccess app) s2)
           = ext s2 (map (\<lambda>v. CliCommandEv (?d v)) (take k (app_ServiceAccess app)))"
        "fst (forEach (disableServiceAccess E) (app_ServiceAccess app) s2) = Inr ()
           \<longrightarrow> k = length (app_ServiceAccess app)"
        using forEach_commands [where body = "disableServiceAccess E" and g = ?d
            and xs = "app_ServiceAccess app" and s = s2]
        by (auto simp: disableServiceAccess_eq)
      obtain r3 s3 where c: "forEach (disableServiceAccess E) (app_ServiceAccess app) s2 = (r3, s3)"
        by (cases "forEach (disableServiceAccess E) (app_ServiceAccess app) s2")
      show ?thesis
      proof (cases r3)
        case (Inl f)
        with a b c k s1 s2 \<open>r1 = Inr info\<close> \<open>r2 = Inr route\<close> have "?stopped k"
          by (simp add: deleteAppAsService_def Let_def)
        with k(1) show ?thesis by blast
      next
        case (Inr u)
        with a b c k s1 s2 \<open>r1 = Inr info\<close> \<open>r2 = Inr route\<close> have ?done
          by (simp add: deleteAppAsService_def Let_def deleteServiceBroker_eq)
        then show ?thesis by blast
      qed
    qed
  qed
qed

text \<open>
  Claim C5. The platform commands that the deregistration of a broker issues are a
  prefix of: one \<open>disable-service-access\<close> per entry of \<open>serviceAccess\<close>, in the order of
  the list, then \<open>delete-service-broker\<close> with the name of the broker and \<open>-f\<close>. They are
  the whole sequence when the deregistration returns no error, and as soon as a
  \<open>delete-service-broker\<close> command is among them: that command is the one with \<open>-f\<close>, and
  every \<open>disable-service-access\<close> precedes it.
\<close>

theorem deregistration_order:
  "prefix (commands (issued s (snd (deleteAppAsService E app s))))
     (map (\<lambda>service. [''disable-service-access'', svc_Service service]
             @ optFlag ''-p'' (svc_Plan service) @ optFlag ''-o'' (svc_Org service))
        (app_ServiceAccess app)
      @ [[''delete-service-broker'', sb_Name (app_ServiceBroker app), ''-f'']])
   \<and> (fst (deleteAppAsService E app s) = Inr () \<longrightarrow>
        commands (issued s (snd (deleteAppAsService E app s)))
          = map (\<lambda>service. [''disable-service-access'', svc_Service service]
                   @ optFlag ''-p'' (svc_Plan service) @ optFlag ''-o'' (svc_Org service))
              (app_ServiceAccess app)
            @ [[''delete-service-broker'', sb_Name (app_ServiceBroker app), ''-f'']])
   \<and> (\<forall>c\<in>set (commands (issued s (snd (deleteAppAsService E app s)))).
        take 1 c = [''delete-service-broker''] \<longrightarrow>
          c = [''delete-service-broker'', sb_Name (app_ServiceBroker app), ''-f'']
          \<and> commands (issued s (snd (deleteAppAsService E app s)))
              = map (\<lambda>service. [''disable-service-access'', svc_Service service]
                       @ optFlag ''-p'' (svc_Plan service) @ optFlag ''-o'' (svc_Org service))
                  (app_ServiceAccess app)
                @ [[''delete-service-broker'', sb_Name (app_ServiceBroker app), ''-f'']])"
proof -
  let ?d = "\<lambda>service. [''disable-service-access'', svc_Service service]
                     @ optFlag ''-p'' (svc_Plan service) @ optFlag ''-o'' (svc_Org service)"
  let ?cs = "commands (issued s (snd (deleteAppAsService E app s)))"
  let ?b = "[''delete-service-broker'', sb_Name (app_ServiceBroker app), ''-f'']"
  obtain k where k: "k \<le> length (app_ServiceAccess app)"
    "(fst (deleteAppAsService E app s) \<noteq> Inr () \<and> ?cs = map ?d (take k (app_ServiceAccess app)))
     \<or> ?cs = map ?d (app_ServiceAccess app) @ [?b]"
    using deleteAppAsService_shape [of app E s] by blast
  have pre: "prefix (map ?d (take k (app_ServiceAccess app))) (map ?d (app_ServiceAccess app) @ [?b])"
    by (simp add: take_is_prefix map_mono_prefix prefix_prefix)
  have nob: "take 1 c \<noteq> [''delete-service-broker'']" if "c \<in> set (map ?d xs)" for c xs
    using that by auto
  from k(2) show ?thesis
  proof
    assume st: "fst (deleteAppAsService E app s) \<noteq> Inr () \<and> ?cs = map ?d (take k (app_ServiceAccess app))"
    then have cs: "?cs = map ?d (take k (app_ServiceAccess app))" by simp
    have "\<forall>c\<in>set ?cs. take 1 c \<noteq> [''delete-service-broker'']"
      unfolding cs using nob [of _ "take k (app_ServiceAccess app)"] by (intro ballI)
    with st pre show ?thesis by simp
  next
    assume "?cs = map ?d (app_ServiceAccess app) @ [?b]"
    moreover have "c = ?b" if "c \<in> set (map ?d (app_ServiceAccess app) @ [?b])"
      and "take 1 c = [''delete-service-broker'']" for c
      using that nob [of c "app_ServiceAccess app"] by auto
    ultimately show ?thesis by simp
  qed
qed

theorem deregistration_order_witness:
  "fst (deleteAppAsService example_env example_app example_state) = Inr ()
   \<and> commands (trace (snd (deleteAppAsService example_env example_app example_state)))
     = [[''disable-service-access'', ''s1'', ''-p'', ''free''],
        [''delete-service-broker'', ''b1'', ''-f'']]"
proof -
  have ok: "fst (deleteAppAsService example_env example_app example_state) = Inr ()"
    by (simp add: example_defs run_defs)
  have i: "issued example_state s1 = trace s1" for s1
    by (simp add: issued_def example_state_def)
  from deregistration_order [of example_state example_env example_app] ok
  have "commands (trace (snd (deleteAppAsService example_env example_app example_state)))
          = map (\<lambda>service. [''disable-service-access'', svc_Service service]
                   @ optFlag ''-p'' (svc_Plan service) @ optFlag ''-o'' (svc_Org service))
              (app_ServiceAccess example_app)
            @ [[''delete-service-broker'', sb_Name (app_ServiceBroker example_app), ''-f'']]"
    unfolding i by blast
  with ok show ?thesis by (simp add: example_app_def optFlag_def)
qed

subsection \<open>The stored manifest\<close>




subsection \<open>The broker scenario\<close>

text \<open>
  Claim C4, as the code has it. On the manifest of the scenario, when no platform command
  fails and the lookups resolve, the apply issues after the push four queries, not three:
  the application search, the application's detail record \<open>/v2/apps/<guid>\<close>, its routes
  and the domain of the first route; then \<open>create-service-broker\<close> with the broker's name,
  user name, password and \<open>https://\<close> followed by the resolved route; then
  \<open>enable-service-access\<close> for the one entry with its plan.
\<close>

theorem broker_scenario:
  assumes "Manifest (repo s) = example_manifest"
    and "\<forall>t args. snd (CliCommand_result E t args) = None"
    and "\<forall>t. SpaceFields_Guid E t = Inr g"
    and "\<forall>t. Unmarshal_apps E (concat (fst (Query_result E t
            [''curl'', ''/v2/spaces/'' @ g @ ''/apps?q=name:api&inline-relations-depth=1''])))
          = Some res"
    and "par_Resources res = r # rs"
    and "\<forall>t. Unmarshal_app E (concat (fst (Query_result E t
            [''curl'', ''/v2/apps/'' @ ar_Guid r]))) = Some info"
    and "\<forall>t. Unmarshal_routes E (concat (fst (Query_result E t
            [''curl'', rapp_RoutesURL info]))) = Some routes"
    and "TotalResults routes \<noteq> 0"
    and "routes_Resources routes = route # rest"
    and "\<forall>t. Unmarshal_domain E (concat (fst (Query_result E t
            [''curl'', route_DomainURL route]))) = Some domain"
    and "resolved = (if route_Host route \<noteq> [] then route_Host route @ ''.'' @ dom_Name domain
                     else dom_Name domain)"
  shows "issued s (snd (Run_action E False s)) =
       [CliCommandEv [''create-org'', ''acme''],
        CliCommandEv [''target'', ''-o'', ''acme''],
        CliCommandEv [''create-space'', ''dev''],
        CliCommandEv [''target'', ''-o'', ''acme'', ''-s'', ''dev''],
        CliCommandEv [''push'', ''api'', ''-p'', ''./api''],
        PrintEv ''setting app as service'',
        QueryEv [''curl'', ''/v2/spaces/'' @ g @ ''/apps?q=name:api&inline-relations-depth=1''],
        QueryEv [''curl'', ''/v2/apps/'' @ ar_Guid r],
        QueryEv [''curl'', rapp_RoutesURL info],
        QueryEv [''curl'', route_DomainURL route],
        CliCommandEv [''create-service-broker'', ''b1'', ''u'', ''p'', ''https://'' @ resolved],
        CliCommandEv [''enable-service-access'', ''s1'', ''-p'', ''free''],
        CliCommandEv [''target'', ''-o'', ''acme'', ''-s'', ''dev'']]
     \<and> fst (Run_action E False s) = Inr ()"
  using assms
  by (simp add: example_manifest_def example_app_def emptyServiceBroker_def
      Run_action_def phase_def createOrganizations_def createSpaces_def
      createApps_def createServices_def deployApp_def deployApp_push_def setAppAsService_def
      getAppInfo_def findAppGUID_def findApp_def firstAppRoute_def
      createServiceBroker_def enableServiceAccess_def optFlag_def Let_def case_prod_beta)


theorem broker_scenario_witness:
  "issued example_state (snd (Run_action example_env False example_state)) =
       [CliCommandEv [''create-org'', ''acme''],
        CliCommandEv [''target'', ''-o'', ''acme''],
        CliCommandEv [''create-space'', ''dev''],
        CliCommandEv [''target'', ''-o'', ''acme'', ''-s'', ''dev''],
        CliCommandEv [''push'', ''api'', ''-p'', ''./api''],
        PrintEv ''setting app as service'',
        QueryEv [''curl'', ''/v2/spaces/sg/apps?q=name:api&inline-relations-depth=1''],
        QueryEv [''curl'', ''/v2/apps/g1''],
        QueryEv [''curl'', ''/v2/apps/g1/routes''],
        QueryEv [''curl'', ''/v2/domains/d1''],
        CliCommandEv [''create-service-broker'', ''b1'', ''u'', ''p'', ''https://api.example.com''],
        CliCommandEv [''enable-service-access'', ''s1'', ''-p'', ''free''],
        CliCommandEv [''target'', ''-o'', ''acme'', ''-s'', ''dev'']]"
  using broker_scenario [of example_state example_env "''sg''"
      "\<lparr>par_Resources = [\<lparr>ar_Guid = ''g1''\<rparr>]\<rparr>" "\<lparr>ar_Guid = ''g1''\<rparr>" "[]"
      "\<lparr>rapp_Name = ''api'', rapp_RoutesURL = ''/v2/apps/g1/routes''\<rparr>"
      "\<lparr>TotalResults = 1,
         routes_Resources = [\<lparr>route_Host = ''api'', route_DomainURL = ''/v2/domains/d1''\<rparr>]\<rparr>"
      "\<lparr>route_Host = ''api'', route_DomainURL = ''/v2/domains/d1''\<rparr>" "[]"
      "\<lparr>dom_Name = ''example.com''\<rparr>" "''api.example.com''"]
  by (simp add: example_env_def example_state_def)

text \<open>The queries of that run: there are four of them.\<close>

theorem broker_scenario_four_queries:
  "queries (issued example_state (snd (Run_action example_env False example_state))) =
       [[''curl'', ''/v2/spaces/sg/apps?q=name:api&inline-relations-depth=1''],
        [''curl'', ''/v2/apps/g1''],
        [''curl'', ''/v2/apps/g1/routes''],
        [''curl'', ''/v2/domains/d1'']]
   \<and> length (queries (issued example_state (snd (Run_action example_env False example_state)))) \<noteq> 3"
  by (simp add: example_apply issued_def) (simp add: example_state_def)

end
